theory Spec2Isabelle
  imports Complex_Main "HOL-Library.Multiset"
begin

section \<open>JavaScript values read by the Quiz component\<close>

text \<open>
  The component \<^verbatim>\<open>Quiz.jsx\<close> receives the response of the question service as an
  untyped JavaScript value and inspects it with \<^verbatim>\<open>typeof\<close>, \<^verbatim>\<open>Array.isArray\<close>,
  truthiness tests and \<^verbatim>\<open>||\<close>. The values are modelled as a datatype; objects are
  association lists from property names to values. Numbers are rationals (every finite
  double is one).
\<close>

datatype jsval =
    JUndefined
  | JNull
  | JBool bool
  | JNum rat
  | JStr string
  | JArr "jsval list"
  | JObj "(string \<times> jsval) list"

text \<open>JavaScript's ToBoolean: \<^verbatim>\<open>undefined\<close>, \<^verbatim>\<open>null\<close>, \<^verbatim>\<open>false\<close>, \<^verbatim>\<open>0\<close> and the
  empty string are falsy, every array and object is truthy.\<close>

fun truthy :: "jsval \<Rightarrow> bool" where
  "truthy JUndefined = False"
| "truthy JNull = False"
| "truthy (JBool b) = b"
| "truthy (JNum n) = (n \<noteq> 0)"
| "truthy (JStr s) = (s \<noteq> [])"
| "truthy (JArr xs) = True"
| "truthy (JObj kvs) = True"

fun nullish :: "jsval \<Rightarrow> bool" where
  "nullish JUndefined = True"
| "nullish JNull = True"
| "nullish v = False"

text \<open>The expression \<^verbatim>\<open>a || b\<close>.\<close>

definition js_or :: "jsval \<Rightarrow> jsval \<Rightarrow> jsval" where
  "js_or a b = (if truthy a then a else b)"

text \<open>
  Reading a property \<^verbatim>\<open>v.k\<close> of a value that is neither \<^verbatim>\<open>null\<close> nor
  \<^verbatim>\<open>undefined\<close>. The component reads only the names \<^verbatim>\<open>data\<close>, \<^verbatim>\<open>content\<close>,
  \<^verbatim>\<open>question\<close>, \<^verbatim>\<open>correctAnswer\<close>, \<^verbatim>\<open>wrongAnswers\<close>, \<^verbatim>\<open>explanation\<close>,
  \<^verbatim>\<open>_id\<close>, \<^verbatim>\<open>id\<close> and \<^verbatim>\<open>message\<close>; none of them is a built-in property of a
  string, number, boolean or array, so such a read gives \<^verbatim>\<open>undefined\<close> there.
\<close>

fun prop_of :: "jsval \<Rightarrow> string \<Rightarrow> jsval" where
  "prop_of (JObj kvs) k = (case map_of kvs k of Some v \<Rightarrow> v | None \<Rightarrow> JUndefined)"
| "prop_of v k = JUndefined"

text \<open>Objects made by \<^verbatim>\<open>new Error(m)\<close> and by the engine for a TypeError.\<close>

definition newError :: "string \<Rightarrow> jsval" where
  "newError m = JObj [(''message'', JStr m)]"

definition typeError :: "string \<Rightarrow> jsval" where
  "typeError m = JObj [(''name'', JStr ''TypeError''), (''message'', JStr m)]"

text \<open>A property read as a statement that can throw: on \<^verbatim>\<open>null\<close> and
  \<^verbatim>\<open>undefined\<close> the engine throws a TypeError. The wording of its message is the
  engine's; V8's is used, which names the value read from and puts the property name in
  single quotes (the character \<open>0x27\<close>).\<close>

definition cannot_read :: "jsval \<Rightarrow> string \<Rightarrow> string" where
  "cannot_read v k =
     ''Cannot read properties of ''
       @ (case v of JUndefined \<Rightarrow> ''undefined'' | _ \<Rightarrow> ''null'')
       @ '' (reading '' @ [CHR 0x27] @ k @ [CHR 0x27] @ '')''"

definition getProp :: "jsval \<Rightarrow> string \<Rightarrow> jsval + jsval" where
  "getProp v k =
     (if nullish v then Inl (typeError (cannot_read v k))
      else Inr (prop_of v k))"

fun isString :: "jsval \<Rightarrow> bool" where
  "isString (JStr s) = True"
| "isString v = False"

fun isArray :: "jsval \<Rightarrow> bool" where
  "isArray (JArr xs) = True"
| "isArray v = False"

fun str_of :: "jsval \<Rightarrow> string" where
  "str_of (JStr s) = s"
| "str_of v = []"

fun elems :: "jsval \<Rightarrow> jsval list" where
  "elems (JArr xs) = xs"
| "elems v = []"

section \<open>The sort-based shuffle\<close>

text \<open>
  Both shuffles are \<^verbatim>\<open>array.sort(() => Math.random() - 0.5)\<close>. The comparator
  ignores its arguments; \<open>rnd n\<close> is the value of the \<open>n\<close>-th call of
  \<^verbatim>\<open>Math.random()\<close> and the position in that sequence is passed along.
  \<^verbatim>\<open>Array.prototype.sort\<close> belongs to the engine, not to the repository; it is
  modelled as an insertion sort that asks the comparator once for each comparison it
  makes and places the new element before the first element the comparator orders it
  before. An engine may compare in another order and draw another number of random
  values, so the order this model returns for given draws is the model's own; what
  carries over to the program is what holds for every sequence of draws, that the result
  is a permutation of the array. (The engine also keeps \<^verbatim>\<open>undefined\<close> elements last
  without asking the comparator; the arrays of a JSON payload hold none.)
\<close>

type_synonym random = "nat \<Rightarrow> rat"

fun insert_random :: "random \<Rightarrow> nat \<Rightarrow> 'a \<Rightarrow> 'a list \<Rightarrow> 'a list \<times> nat" where
  "insert_random rnd k x [] = ([x], k)"
| "insert_random rnd k x (y # ys) =
     (if rnd k - 1/2 < 0 then (x # y # ys, Suc k)
      else (case insert_random rnd (Suc k) x ys of (zs, k') \<Rightarrow> (y # zs, k')))"

fun sort_loop :: "random \<Rightarrow> nat \<Rightarrow> 'a list \<Rightarrow> 'a list \<Rightarrow> 'a list \<times> nat" where
  "sort_loop rnd k acc [] = (acc, k)"
| "sort_loop rnd k acc (x # xs) =
     (case insert_random rnd k x acc of (acc', k') \<Rightarrow> sort_loop rnd k' acc' xs)"

definition sort_random :: "random \<Rightarrow> nat \<Rightarrow> 'a list \<Rightarrow> 'a list \<times> nat" where
  "sort_random rnd k xs = sort_loop rnd k [] xs"

section \<open>The question loader\<close>

text \<open>The object literal built for a well-formed record (lines 46 to 53).\<close>

record quiz_question =
  qid :: jsval
  question :: string
  options :: "jsval list"
  answer :: string
  explanation :: jsval
  feedback :: jsval

text \<open>\<^verbatim>\<open>const content = q.content || {}\<close>, for a record \<open>q\<close> on which the read does
  not throw.\<close>

definition content_of :: "jsval \<Rightarrow> jsval" where
  "content_of q = js_or (prop_of q ''content'') (JObj [])"

text \<open>The negation of the condition of the \<^verbatim>\<open>if\<close> at lines 37 to 42, for a record
  that is not \<^verbatim>\<open>null\<close> or \<^verbatim>\<open>undefined\<close>.\<close>

definition well_formed :: "jsval \<Rightarrow> bool" where
  "well_formed q =
     (\<not> (\<not> isString (prop_of (content_of q) ''question'')
        \<or> \<not> isString (prop_of (content_of q) ''correctAnswer'')
        \<or> \<not> isArray (prop_of (content_of q) ''wrongAnswers'')
        \<or> length (elems (prop_of (content_of q) ''wrongAnswers'')) < 1))"

text \<open>
  The callback of \<^verbatim>\<open>response.data.map\<close> (lines 34 to 54). \<open>Inl\<close> is the TypeError
  of \<^verbatim>\<open>q.content\<close> on a \<^verbatim>\<open>null\<close> element; \<open>None\<close> is the \<^verbatim>\<open>null\<close> returned
  for a malformed record. Since \<open>content_of q\<close> is truthy, the reads on it cannot throw.
\<close>

definition formatQuestion ::
  "random \<Rightarrow> nat \<Rightarrow> jsval \<Rightarrow> jsval + (quiz_question option \<times> nat)" where
  "formatQuestion rnd k q =
     (case getProp q ''content'' of
        Inl e \<Rightarrow> Inl e
      | Inr c \<Rightarrow>
          (let content = js_or c (JObj []) in
           if \<not> isString (prop_of content ''question'')
              \<or> \<not> isString (prop_of content ''correctAnswer'')
              \<or> \<not> isArray (prop_of content ''wrongAnswers'')
              \<or> length (elems (prop_of content ''wrongAnswers'')) < 1
           then Inr (None, k)
           else
             (case sort_random rnd k
                     (elems (prop_of content ''wrongAnswers'') @ [prop_of content ''correctAnswer''])
              of (opts, k') \<Rightarrow>
                Inr (Some \<lparr> qid = js_or (prop_of q ''_id'') (prop_of q ''id''),
                            question = str_of (prop_of content ''question''),
                            options = opts,
                            answer = str_of (prop_of content ''correctAnswer''),
                            explanation = js_or (prop_of content ''explanation'') (JStr []),
                            feedback = js_or (prop_of content ''explanation'') (JStr []) \<rparr>,
                     k'))))"

text \<open>\<^verbatim>\<open>response.data.map(...)\<close> on an array: the callback runs on the elements in
  order and the first exception ends the call.\<close>

fun mapFormat ::
  "random \<Rightarrow> nat \<Rightarrow> jsval list \<Rightarrow> jsval + (quiz_question option list \<times> nat)" where
  "mapFormat rnd k [] = Inr ([], k)"
| "mapFormat rnd k (q # qs) =
     (case formatQuestion rnd k q of
        Inl e \<Rightarrow> Inl e
      | Inr (f, k') \<Rightarrow>
          (case mapFormat rnd k' qs of
             Inl e \<Rightarrow> Inl e
           | Inr (fs, k'') \<Rightarrow> Inr (f # fs, k'')))"

text \<open>\<^verbatim>\<open>.filter(Boolean)\<close>: the \<^verbatim>\<open>null\<close> entries go, the objects (truthy) stay.\<close>

fun filterBoolean :: "'a option list \<Rightarrow> 'a list" where
  "filterBoolean [] = []"
| "filterBoolean (None # fs) = filterBoolean fs"
| "filterBoolean (Some f # fs) = f # filterBoolean fs"

text \<open>How the promise of \<^verbatim>\<open>questionsApi.getAllQuestions\<close> settles.\<close>

datatype api_outcome = Resolved jsval | Rejected jsval

text \<open>
  The body of the \<^verbatim>\<open>try\<close> block up to \<^verbatim>\<open>shuffledQuestions\<close> (lines 27 to 62):
  \<open>Inl\<close> is the value thrown, \<open>Inr\<close> the shuffled question sequence. A truthy
  \<^verbatim>\<open>response.data\<close> that is not an array has no callable \<^verbatim>\<open>map\<close>.
\<close>

definition tryBody :: "api_outcome \<Rightarrow> random \<Rightarrow> jsval + quiz_question list" where
  "tryBody outcome rnd =
     (case outcome of
        Rejected e \<Rightarrow> Inl e
      | Resolved response \<Rightarrow>
          if \<not> truthy response \<or> \<not> truthy (prop_of response ''data'')
          then Inl (newError ''Failed to fetch questions'')
          else if \<not> isArray (prop_of response ''data'')
          then Inl (typeError ''response.data.map is not a function'')
          else
            (case mapFormat rnd 0 (elems (prop_of response ''data'')) of
               Inl e \<Rightarrow> Inl e
             | Inr (fs, k) \<Rightarrow>
                 if length (filterBoolean fs) = 0
                 then Inl (newError ''No valid questions available for this level.'')
                 else Inr (fst (sort_random rnd k (filterBoolean fs)))))"

section \<open>The component state and its handlers\<close>

text \<open>The eight \<^verbatim>\<open>useState\<close> cells (lines 8 to 15).\<close>

record quiz =
  selectedLevel :: jsval
  questions :: "quiz_question list"
  currentQuestion :: nat
  selectedAnswer :: jsval
  score :: nat
  showResults :: bool
  loading :: bool
  error :: jsval

definition initial :: quiz where
  "initial = \<lparr> selectedLevel = JNull, questions = [], currentQuestion = 0,
               selectedAnswer = JNull, score = 0, showResults = False,
               loading = False, error = JNull \<rparr>"

text \<open>
  \<^verbatim>\<open>fetchQuestions\<close> (lines 23 to 75), run from its call to the end of
  \<^verbatim>\<open>finally\<close>. The service is a function from the level it is asked for to the way
  its promise settles. The second component is the exception that leaves the function,
  if any: the \<^verbatim>\<open>catch\<close> block reads \<^verbatim>\<open>err.message\<close>, which itself throws when the
  rejection value is \<^verbatim>\<open>null\<close> or \<^verbatim>\<open>undefined\<close>; \<^verbatim>\<open>finally\<close> runs all the same.
\<close>

definition fetchQuestions ::
  "(jsval \<Rightarrow> api_outcome) \<Rightarrow> random \<Rightarrow> quiz \<Rightarrow> quiz \<times> jsval option" where
  "fetchQuestions api rnd s =
     (let s1 = s\<lparr> loading := True, error := JNull \<rparr> in
      case tryBody (api (selectedLevel s)) rnd of
        Inr shuffledQuestions \<Rightarrow>
          (s1\<lparr> questions := shuffledQuestions, currentQuestion := 0,
               selectedAnswer := JNull, score := 0, showResults := False,
               loading := False \<rparr>, None)
      | Inl err \<Rightarrow>
          (case getProp err ''message'' of
             Inl e \<Rightarrow> (s1\<lparr> loading := False \<rparr>, Some e)
           | Inr m \<Rightarrow>
               (s1\<lparr> error := js_or m (JStr ''Failed to load questions. Please try again.''),
                    loading := False \<rparr>, None)))"

text \<open>
  \<^verbatim>\<open>handleAnswer\<close> (lines 81 to 88). \<^verbatim>\<open>questions[currentQuestion]\<close> is
  \<^verbatim>\<open>undefined\<close> out of range and reading \<^verbatim>\<open>.answer\<close> of it throws, after
  \<^verbatim>\<open>setSelectedAnswer\<close> has been called. The answer of a question is a string, so
  \<^verbatim>\<open>option === answer\<close> holds exactly when the option is that string.
\<close>

definition handleAnswer :: "jsval \<Rightarrow> quiz \<Rightarrow> quiz \<times> jsval option" where
  "handleAnswer option s =
     (if \<not> truthy (selectedAnswer s) then
        (if currentQuestion s < length (questions s) then
           (if option = JStr (answer (questions s ! currentQuestion s))
            then (s\<lparr> selectedAnswer := option, score := score s + 1 \<rparr>, None)
            else (s\<lparr> selectedAnswer := option \<rparr>, None))
         else (s\<lparr> selectedAnswer := option \<rparr>,
               Some (typeError (cannot_read JUndefined ''answer''))))
      else (s, None))"

text \<open>\<^verbatim>\<open>handleNext\<close> (lines 90 to 97); the comparison is on integers, as
  \<^verbatim>\<open>questions.length - 1\<close> is \<open>-1\<close> for an empty array.\<close>

definition handleNext :: "quiz \<Rightarrow> quiz" where
  "handleNext s =
     (if int (currentQuestion s) < int (length (questions s)) - 1
      then s\<lparr> currentQuestion := currentQuestion s + 1, selectedAnswer := JNull \<rparr>
      else s\<lparr> showResults := True \<rparr>)"

text \<open>\<^verbatim>\<open>handleRestart\<close> (lines 99 to 101) only calls \<^verbatim>\<open>fetchQuestions\<close>.\<close>

definition handleRestart ::
  "(jsval \<Rightarrow> api_outcome) \<Rightarrow> random \<Rightarrow> quiz \<Rightarrow> quiz \<times> jsval option" where
  "handleRestart api rnd s = fetchQuestions api rnd s"

text \<open>\<^verbatim>\<open>handleLevelSelect\<close> (lines 77 to 79) followed by the effect of lines 17
  to 21, which fetches when the new level is truthy.\<close>

definition handleLevelSelect ::
  "(jsval \<Rightarrow> api_outcome) \<Rightarrow> random \<Rightarrow> jsval \<Rightarrow> quiz \<Rightarrow> quiz \<times> jsval option" where
  "handleLevelSelect api rnd level s =
     (if truthy level then fetchQuestions api rnd (s\<lparr> selectedLevel := level \<rparr>)
      else (s\<lparr> selectedLevel := level \<rparr>, None))"

text \<open>The three \<^verbatim>\<open>Change Level\<close> buttons: \<^verbatim>\<open>() => setSelectedLevel(null)\<close>; the
  effect then finds no level and does nothing.\<close>

definition changeLevel :: "quiz \<Rightarrow> quiz" where
  "changeLevel s = s\<lparr> selectedLevel := JNull \<rparr>"

section \<open>The views and the events they accept\<close>

text \<open>
  The percentage of the results view is \<^verbatim>\<open>Math.round((score / questions.length) * 100)\<close>
  on IEEE 754 doubles. A double is modelled by the rational it denotes: \<open>to_double\<close>
  rounds a rational to the nearest number with a 53-bit significand, ties to the even
  significand. The exponent is not bounded, which is exact here: an array has fewer than
  \<open>2 ^ 32\<close> elements, so the quotient and the product are in the normal range, and the
  integers \<open>score\<close> and \<open>questions.length\<close> are doubles themselves.
\<close>

function floor_log2 :: "int \<Rightarrow> int" where
  "floor_log2 n = (if n < 2 then 0 else 1 + floor_log2 (n div 2))"
  by pat_completeness auto
termination
  by (relation "measure nat") auto

declare floor_log2.simps [simp del]

definition pow2 :: "int \<Rightarrow> rat" where
  "pow2 e = (if 0 \<le> e then 2 ^ nat e else 1 / 2 ^ nat (- e))"

text \<open>For \<open>x > 0\<close>, the \<open>e\<close> with \<open>2 ^ e \<le> x < 2 ^ (e + 1)\<close>.\<close>

definition binary_exponent :: "rat \<Rightarrow> int" where
  "binary_exponent x =
     (case quotient_of x of (a, b) \<Rightarrow>
        (let e = floor_log2 a - floor_log2 b
         in if pow2 e \<le> x then e else e - 1))"

definition round_half_even :: "rat \<Rightarrow> int" where
  "round_half_even x =
     (let f = \<lfloor>x\<rfloor>; r = x - of_int f
      in if r < 1/2 then f else if 1/2 < r then f + 1 else if even f then f else f + 1)"

definition to_double :: "rat \<Rightarrow> rat" where
  "to_double x =
     (if x = 0 then 0
      else (let u = pow2 (binary_exponent \<bar>x\<bar> - 52)
            in sgn x * of_int (round_half_even (\<bar>x\<bar> / u)) * u))"

text \<open>\<^verbatim>\<open>Math.round\<close>: the nearest integer, a tie going up.\<close>

definition Math_round :: "rat \<Rightarrow> int" where
  "Math_round x = \<lfloor>x + 1/2\<rfloor>"

text \<open>The percentage shown, for a non-empty question sequence (the view with it is
  rendered only then, so the division is never by zero).\<close>

definition percentage :: "nat \<Rightarrow> nat \<Rightarrow> int" where
  "percentage sc n = Math_round (to_double (to_double (of_nat sc / of_nat n) * 100))"

text \<open>
  The percentage in the words of the specification, \<open>round(score / total * 100)\<close>, read
  in exact arithmetic with a tie going up, to be compared with \<open>percentage\<close>; and the
  scores for which \<open>score / total * 100\<close> lies exactly halfway between two integers.
\<close>

definition exact_percentage :: "nat \<Rightarrow> nat \<Rightarrow> int" where
  "exact_percentage sc n = \<lfloor>(of_nat sc / of_nat n :: rat) * 100 + 1/2\<rfloor>"

definition halfway :: "nat \<Rightarrow> nat \<Rightarrow> bool" where
  "halfway sc n =
     (of_int (exact_percentage sc n) = (of_nat sc / of_nat n :: rat) * 100 + 1/2)"

text \<open>
  What the component returns (lines 103 to 224), reduced to the view chosen and the data
  the claims speak of. The question view carries the question text, the option buttons
  and whether the option buttons are disabled (\<^verbatim>\<open>disabled={!!selectedAnswer}\<close>); the
  button \<^verbatim>\<open>Next\<close> is disabled exactly when they are not (\<^verbatim>\<open>disabled={!selectedAnswer}\<close>).
  Rendering the question view with \<^verbatim>\<open>currentQuestion\<close> out of range throws.
\<close>

datatype screen =
    LevelSelectorScreen
  | LoadingScreen
  | ErrorScreen jsval
  | NoQuestionsScreen
  | ResultsScreen int nat nat
  | QuestionScreen string "jsval list" bool
  | RenderError

definition render :: "quiz \<Rightarrow> screen" where
  "render s =
     (if \<not> truthy (selectedLevel s) then LevelSelectorScreen
      else if loading s then LoadingScreen
      else if truthy (error s) then ErrorScreen (error s)
      else if length (questions s) = 0 then NoQuestionsScreen
      else if showResults s
        then ResultsScreen (percentage (score s) (length (questions s)))
               (score s) (length (questions s))
      else if currentQuestion s < length (questions s)
        then QuestionScreen (question (questions s ! currentQuestion s))
               (options (questions s ! currentQuestion s)) (truthy (selectedAnswer s))
      else RenderError)"

text \<open>
  The user's actions. A click reaches a handler only through a button that the current
  view contains and that is not disabled; every other event leaves the state as it is.
  The level selector is an external component that calls \<^verbatim>\<open>onLevelSelect\<close>.
\<close>

datatype event =
    LevelChosen jsval
  | OptionClicked nat
  | NextClicked
  | RestartClicked
  | TryAgainClicked
  | ChangeLevelClicked

fun on_screen ::
  "(jsval \<Rightarrow> api_outcome) \<Rightarrow> random \<Rightarrow> screen \<Rightarrow> event \<Rightarrow> quiz \<Rightarrow> quiz" where
  "on_screen api rnd LevelSelectorScreen (LevelChosen level) s =
     fst (handleLevelSelect api rnd level s)"
| "on_screen api rnd (ErrorScreen m) TryAgainClicked s = fst (fetchQuestions api rnd s)"
| "on_screen api rnd (ErrorScreen m) ChangeLevelClicked s = changeLevel s"
| "on_screen api rnd NoQuestionsScreen ChangeLevelClicked s = changeLevel s"
| "on_screen api rnd (ResultsScreen p sc n) RestartClicked s = fst (handleRestart api rnd s)"
| "on_screen api rnd (ResultsScreen p sc n) ChangeLevelClicked s = changeLevel s"
| "on_screen api rnd (QuestionScreen t opts disabled) (OptionClicked i) s =
     (if \<not> disabled \<and> i < length opts then fst (handleAnswer (opts ! i) s) else s)"
| "on_screen api rnd (QuestionScreen t opts disabled) NextClicked s =
     (if disabled then handleNext s else s)"
| "on_screen api rnd scr ev s = s"

definition dispatch ::
  "(jsval \<Rightarrow> api_outcome) \<Rightarrow> random \<Rightarrow> event \<Rightarrow> quiz \<Rightarrow> quiz" where
  "dispatch api rnd ev s = on_screen api rnd (render s) ev s"

section \<open>Vocabulary of the properties\<close>

text \<open>A record that the loader keeps: the read of \<^verbatim>\<open>q.content\<close> does not throw and
  the check of lines 37 to 42 passes.\<close>

definition valid_record :: "jsval \<Rightarrow> bool" where
  "valid_record q = (\<not> nullish q \<and> well_formed q)"

text \<open>The stricter reading of a valid record: \<^verbatim>\<open>wrongAnswers\<close> is a non-empty
  sequence of strings.\<close>

definition strictly_valid :: "jsval \<Rightarrow> bool" where
  "strictly_valid q =
     (valid_record q \<and> list_all isString (elems (prop_of (content_of q) ''wrongAnswers'')))"

text \<open>The question built from a record, its options in the order
  \<^verbatim>\<open>[...wrongAnswers, correctAnswer]\<close>, before they are shuffled.\<close>

definition unshuffled :: "jsval \<Rightarrow> quiz_question" where
  "unshuffled q =
     \<lparr> qid = js_or (prop_of q ''_id'') (prop_of q ''id''),
       question = str_of (prop_of (content_of q) ''question''),
       options = elems (prop_of (content_of q) ''wrongAnswers'')
                   @ [prop_of (content_of q) ''correctAnswer''],
       answer = str_of (prop_of (content_of q) ''correctAnswer''),
       explanation = js_or (prop_of (content_of q) ''explanation'') (JStr []),
       feedback = js_or (prop_of (content_of q) ''explanation'') (JStr []) \<rparr>"

text \<open>A question up to the order of its options.\<close>

definition up_to_order :: "quiz_question \<Rightarrow> quiz_question \<times> jsval multiset" where
  "up_to_order f = (f\<lparr> options := [] \<rparr>, mset (options f))"

section \<open>Runs and concrete inputs\<close>

text \<open>A run of the component: the events are handled one after the other, each on the
  state the one before left.\<close>

definition run ::
  "(jsval \<Rightarrow> api_outcome) \<Rightarrow> random \<Rightarrow> event list \<Rightarrow> quiz \<Rightarrow> quiz" where
  "run api rnd evs s = foldl (\<lambda>s' ev. dispatch api rnd ev s') s evs"

text \<open>A random source whose every draw is \<open>0\<close>: each comparison is negative.\<close>

definition always_zero :: random where
  "always_zero = (\<lambda>n. 0)"

text \<open>The record \<^verbatim>\<open>{content: {question: t, correctAnswer: c, wrongAnswers: ws}}\<close>, the
  response \<^verbatim>\<open>{data: recs}\<close>, a service that resolves with a given response and one
  that rejects with a network error.\<close>

definition sample_record :: "string \<Rightarrow> string \<Rightarrow> jsval list \<Rightarrow> jsval" where
  "sample_record t c ws =
     JObj [(''content'',
            JObj [(''question'', JStr t), (''correctAnswer'', JStr c),
                  (''wrongAnswers'', JArr ws)])]"

definition response_with :: "jsval list \<Rightarrow> jsval" where
  "response_with recs = JObj [(''data'', JArr recs)]"

definition service_returning :: "jsval \<Rightarrow> jsval \<Rightarrow> api_outcome" where
  "service_returning resp level = Resolved resp"

definition service_failing :: "jsval \<Rightarrow> api_outcome" where
  "service_failing level = Rejected (newError ''Network Error'')"

text \<open>A batch with one valid record and three malformed ones: no \<^verbatim>\<open>content\<close>, an
  empty \<^verbatim>\<open>wrongAnswers\<close>, a \<^verbatim>\<open>question\<close> that is a number.\<close>

definition mixed_batch :: "jsval list" where
  "mixed_batch =
     [sample_record ''q1'' ''a'' [JStr ''b''],
      JObj [],
      sample_record ''q2'' ''c'' [],
      JObj [(''content'',
             JObj [(''question'', JNum 7), (''correctAnswer'', JStr ''a''),
                   (''wrongAnswers'', JArr [JStr ''b''])])]]"

text \<open>The question the loader builds from the first record of \<open>mixed_batch\<close> when
  every comparison is negative.\<close>

definition mixed_batch_question :: quiz_question where
  "mixed_batch_question =
     \<lparr> qid = JUndefined, question = ''q1'', options = [JStr ''a'', JStr ''b''],
       answer = ''a'', explanation = JStr [], feedback = JStr [] \<rparr>"

text \<open>A record whose \<^verbatim>\<open>wrongAnswers\<close> holds a number.\<close>

definition number_record :: jsval where
  "number_record = sample_record ''q'' ''a'' [JNum 1]"

text \<open>A session of one question, answered correctly and advanced to the results.\<close>

definition one_question_service :: "jsval \<Rightarrow> api_outcome" where
  "one_question_service = service_returning (response_with [sample_record ''q'' ''a'' [JStr ''b'']])"

definition one_question_finished :: quiz where
  "one_question_finished =
     run one_question_service always_zero
       [LevelChosen (JStr ''A1''), OptionClicked 0, NextClicked] initial"

text \<open>The scenario of the specification: five valid records, three answered correctly
  and two wrongly, up to the moment before the last advance. With every comparison
  negative the correct option is the first button.\<close>

definition five_question_service :: "jsval \<Rightarrow> api_outcome" where
  "five_question_service =
     service_returning (response_with
       [sample_record ''q1'' ''a'' [JStr ''b''], sample_record ''q2'' ''a'' [JStr ''b''],
        sample_record ''q3'' ''a'' [JStr ''b''], sample_record ''q4'' ''a'' [JStr ''b''],
        sample_record ''q5'' ''a'' [JStr ''b'']])"

definition five_questions_answered :: quiz where
  "five_questions_answered =
     run five_question_service always_zero
       [LevelChosen (JStr ''A1''),
        OptionClicked 0, NextClicked, OptionClicked 0, NextClicked,
        OptionClicked 0, NextClicked, OptionClicked 1, NextClicked,
        OptionClicked 1] initial"

text \<open>Forty valid records, 23 answered correctly and 17 wrongly, up to the moment before
  the last advance.\<close>

definition forty_question_service :: "jsval \<Rightarrow> api_outcome" where
  "forty_question_service =
     service_returning (response_with (replicate 40 (sample_record ''q'' ''a'' [JStr ''b''])))"

definition forty_questions_answered :: quiz where
  "forty_questions_answered =
     run forty_question_service always_zero
       (LevelChosen (JStr ''A1'')
        # concat (replicate 23 [OptionClicked 0, NextClicked])
        @ concat (replicate 16 [OptionClicked 1, NextClicked])
        @ [OptionClicked 1]) initial"

text \<open>Sessions on records in which a string is empty: the correct answer of the first,
  the wrong answer of the second.\<close>

definition empty_answer_service :: "jsval \<Rightarrow> api_outcome" where
  "empty_answer_service = service_returning (response_with [sample_record ''q'' [] [JStr ''x'']])"

definition empty_answer_loaded :: quiz where
  "empty_answer_loaded =
     fst (handleLevelSelect empty_answer_service always_zero (JStr ''A1'') initial)"

definition empty_option_service :: "jsval \<Rightarrow> api_outcome" where
  "empty_option_service = service_returning (response_with [sample_record ''q'' ''x'' [JStr []]])"

definition empty_option_selected :: quiz where
  "empty_option_selected =
     run empty_option_service always_zero [LevelChosen (JStr ''A1''), OptionClicked 1] initial"

section \<open>The loader: shuffles, records kept, errors\<close>

lemma insert_random_mset:
  "insert_random rnd k x ys = (zs, k') \<Longrightarrow> mset zs = add_mset x (mset ys)"
  by (induction ys arbitrary: k zs k') (auto split: if_splits prod.splits)

lemma sort_loop_mset:
  "sort_loop rnd k acc xs = (ys, k') \<Longrightarrow> mset ys = mset acc + mset xs"
proof (induction xs arbitrary: k acc)
  case Nil
  then show ?case by simp
next
  case (Cons x xs)
  obtain acc' k1 where ins: "insert_random rnd k x acc = (acc', k1)"
    by (cases "insert_random rnd k x acc")
  with Cons.prems have "sort_loop rnd k1 acc' xs = (ys, k')" by simp
  then have "mset ys = mset acc' + mset xs" by (rule Cons.IH)
  with insert_random_mset [OF ins] show ?case by simp
qed

lemma sort_random_mset: "mset (fst (sort_random rnd k xs)) = mset xs"
proof -
  obtain ys k' where "sort_loop rnd k [] xs = (ys, k')"
    by (cases "sort_loop rnd k [] xs")
  then show ?thesis
    using sort_loop_mset [of rnd k "[]" xs ys k'] by (simp add: sort_random_def)
qed

lemma formatQuestion_nullish:
  "nullish q \<Longrightarrow> \<exists>e. formatQuestion rnd k q = Inl e"
  by (simp add: formatQuestion_def getProp_def)

lemma formatQuestion_malformed:
  "\<not> nullish q \<Longrightarrow> \<not> well_formed q \<Longrightarrow> formatQuestion rnd k q = Inr (None, k)"
  by (auto simp add: formatQuestion_def getProp_def well_formed_def content_of_def Let_def)

lemma formatQuestion_well_formed:
  assumes "\<not> nullish q" and "well_formed q"
  shows "\<exists>f k'. formatQuestion rnd k q = Inr (Some f, k')
           \<and> up_to_order f = up_to_order (unshuffled q)"
proof -
  let ?xs = "elems (prop_of (content_of q) ''wrongAnswers'') @ [prop_of (content_of q) ''correctAnswer'']"
  obtain opts k' where s: "sort_random rnd k ?xs = (opts, k')"
    by (cases "sort_random rnd k ?xs")
  have m: "mset opts = mset ?xs"
    using sort_random_mset [of rnd k ?xs] s by simp
  from assms s have "formatQuestion rnd k q = Inr (Some ((unshuffled q)\<lparr> options := opts \<rparr>), k')"
    by (simp add: formatQuestion_def getProp_def well_formed_def content_of_def Let_def
        unshuffled_def)
  moreover have "up_to_order ((unshuffled q)\<lparr> options := opts \<rparr>) = up_to_order (unshuffled q)"
    using m by (simp add: up_to_order_def unshuffled_def)
  ultimately show ?thesis by blast
qed

lemma formatQuestion_Inr:
  "formatQuestion rnd k q = Inr (r, k') \<Longrightarrow> \<not> nullish q"
  by (auto simp add: formatQuestion_def getProp_def split: if_splits)

lemma formatQuestion_Some:
  assumes "formatQuestion rnd k q = Inr (Some f, k')"
  shows "valid_record q \<and> up_to_order f = up_to_order (unshuffled q)"
proof -
  have n: "\<not> nullish q" using assms by (rule formatQuestion_Inr)
  have w: "well_formed q"
  proof (rule ccontr)
    assume "\<not> well_formed q"
    with n have "formatQuestion rnd k q = Inr (None, k)" by (rule formatQuestion_malformed)
    with assms show False by simp
  qed
  from formatQuestion_well_formed [OF n w, of rnd k] assms n w
  show ?thesis by (auto simp add: valid_record_def)
qed

lemma formatQuestion_None:
  assumes "formatQuestion rnd k q = Inr (None, k')"
  shows "\<not> valid_record q"
proof
  assume "valid_record q"
  then have "\<not> nullish q" "well_formed q" by (simp_all add: valid_record_def)
  from formatQuestion_well_formed [OF this, of rnd k] assms show False by auto
qed

lemma mapFormat_kept:
  "mapFormat rnd k qs = Inr (fs, k') \<Longrightarrow>
     map up_to_order (filterBoolean fs) = map (up_to_order \<circ> unshuffled) (filter valid_record qs)"
proof (induction qs arbitrary: k fs)
  case Nil
  then show ?case by simp
next
  case (Cons q qs)
  from Cons.prems obtain f k1 fs' where
    f: "formatQuestion rnd k q = Inr (f, k1)" and
    r: "mapFormat rnd k1 qs = Inr (fs', k')" and
    fs: "fs = f # fs'"
    by (auto split: sum.splits prod.splits)
  have IH: "map up_to_order (filterBoolean fs') = map (up_to_order \<circ> unshuffled) (filter valid_record qs)"
    using r by (rule Cons.IH)
  show ?case
  proof (cases f)
    case None
    with f have "\<not> valid_record q" by (simp add: formatQuestion_None)
    with None IH fs show ?thesis by simp
  next
    case (Some g)
    with f have "valid_record q \<and> up_to_order g = up_to_order (unshuffled q)"
      by (simp add: formatQuestion_Some)
    with Some IH fs show ?thesis by simp
  qed
qed

lemma mapFormat_total:
  "\<forall>q\<in>set qs. \<not> nullish q \<Longrightarrow> \<exists>fs k'. mapFormat rnd k qs = Inr (fs, k')"
proof (induction qs arbitrary: k)
  case Nil
  then show ?case by simp
next
  case (Cons q qs)
  then have n: "\<not> nullish q" by simp
  have "\<exists>f k1. formatQuestion rnd k q = Inr (f, k1)"
  proof (cases "well_formed q")
    case True
    with n formatQuestion_well_formed [of q rnd k] show ?thesis by blast
  next
    case False
    with n formatQuestion_malformed [of q rnd k] show ?thesis by blast
  qed
  then obtain f k1 where f: "formatQuestion rnd k q = Inr (f, k1)" by blast
  from Cons obtain fs k' where "mapFormat rnd k1 qs = Inr (fs, k')" by fastforce
  with f show ?case by simp
qed

lemma mapFormat_throws:
  "\<exists>q\<in>set qs. nullish q \<Longrightarrow> \<exists>e. mapFormat rnd k qs = Inl e"
proof (induction qs arbitrary: k)
  case Nil
  then show ?case by simp
next
  case (Cons q qs)
  show ?case
  proof (cases "formatQuestion rnd k q")
    case (Inl e)
    then show ?thesis by simp
  next
    case (Inr p)
    obtain f k1 where p: "p = (f, k1)" by (cases p)
    with Inr have "\<not> nullish q" by (simp add: formatQuestion_Inr)
    with Cons.prems have "\<exists>q\<in>set qs. nullish q" by simp
    then obtain e where "mapFormat rnd k1 qs = Inl e" using Cons.IH by blast
    with Inr p show ?thesis by simp
  qed
qed

lemma prop_of_newError: "prop_of (newError m) ''message'' = JStr m"
  by (simp add: newError_def)

lemma prop_of_typeError: "prop_of (typeError m) ''message'' = JStr m"
  by (simp add: typeError_def)

lemma cannot_read_nonempty: "cannot_read v k \<noteq> []"
  by (simp add: cannot_read_def)

lemma formatQuestion_Inl:
  assumes "formatQuestion rnd k q = Inl e"
  shows "\<exists>m. m \<noteq> [] \<and> e = typeError m"
proof -
  from assms have "e = typeError (cannot_read q ''content'')"
    by (auto simp add: formatQuestion_def getProp_def Let_def split: if_splits prod.splits)
  with cannot_read_nonempty show ?thesis by blast
qed

lemma mapFormat_Inl:
  "mapFormat rnd k qs = Inl e \<Longrightarrow> \<exists>m. m \<noteq> [] \<and> e = typeError m"
proof (induction qs arbitrary: k)
  case Nil
  then show ?case by simp
next
  case (Cons q qs)
  show ?case
  proof (cases "formatQuestion rnd k q")
    case (Inl e')
    with Cons.prems have "e' = e" by simp
    with Inl show ?thesis by (simp add: formatQuestion_Inl)
  next
    case (Inr p)
    obtain f k1 where p: "p = (f, k1)" by (cases p)
    with Inr Cons.prems have "mapFormat rnd k1 qs = Inl e"
      by (auto split: sum.splits)
    then show ?thesis by (rule Cons.IH)
  qed
qed

lemma tryBody_Resolved_Inl:
  assumes "tryBody (Resolved resp) rnd = Inl e"
  shows "\<exists>m. m \<noteq> [] \<and> (e = newError m \<or> e = typeError m)"
proof (cases "\<not> truthy resp \<or> \<not> truthy (prop_of resp ''data'')")
  case True
  with assms have "e = newError ''Failed to fetch questions''"
    by (auto simp add: tryBody_def)
  then show ?thesis by blast
next
  case ok: False
  show ?thesis
  proof (cases "isArray (prop_of resp ''data'')")
    case False
    with ok assms have "e = typeError ''response.data.map is not a function''"
      by (auto simp add: tryBody_def)
    then show ?thesis by blast
  next
    case True
    show ?thesis
    proof (cases "mapFormat rnd 0 (elems (prop_of resp ''data''))")
      case (Inl e')
      with ok True assms have "e' = e" by (auto simp add: tryBody_def)
      with Inl mapFormat_Inl show ?thesis by blast
    next
      case (Inr p)
      obtain fs k where "p = (fs, k)" by (cases p)
      with Inr ok True assms
      have "e = newError ''No valid questions available for this level.''"
        by (auto simp add: tryBody_def split: if_splits)
      then show ?thesis by blast
    qed
  qed
qed

lemma tryBody_array:
  assumes "prop_of resp ''data'' = JArr recs"
  shows "tryBody (Resolved resp) rnd =
    (case mapFormat rnd 0 recs of
       Inl e \<Rightarrow> Inl e
     | Inr (fs, k) \<Rightarrow>
         if filterBoolean fs = []
         then Inl (newError ''No valid questions available for this level.'')
         else Inr (fst (sort_random rnd k (filterBoolean fs))))"
proof -
  have "truthy resp" using assms by (cases resp) simp_all
  with assms show ?thesis
    by (simp add: tryBody_def split: sum.splits prod.splits)
qed

lemma tryBody_Inr:
  assumes "tryBody (Resolved resp) rnd = Inr qs"
  shows "\<exists>fs k. mapFormat rnd 0 (elems (prop_of resp ''data'')) = Inr (fs, k)
           \<and> filterBoolean fs \<noteq> [] \<and> qs = fst (sort_random rnd k (filterBoolean fs))"
  using assms by (auto simp add: tryBody_def split: if_splits sum.splits prod.splits)

lemma tryBody_kept:
  assumes "tryBody (Resolved resp) rnd = Inr qs"
  shows "image_mset up_to_order (mset qs) =
         image_mset (up_to_order \<circ> unshuffled)
           (mset (filter valid_record (elems (prop_of resp ''data''))))"
proof -
  from tryBody_Inr [OF assms] obtain fs k where
    m: "mapFormat rnd 0 (elems (prop_of resp ''data'')) = Inr (fs, k)" and
    q: "qs = fst (sort_random rnd k (filterBoolean fs))"
    by blast
  have "mset qs = mset (filterBoolean fs)"
    using q by (simp add: sort_random_mset)
  then have "image_mset up_to_order (mset qs) = mset (map up_to_order (filterBoolean fs))"
    by simp
  also have "\<dots> = mset (map (up_to_order \<circ> unshuffled)
                        (filter valid_record (elems (prop_of resp ''data''))))"
    using mapFormat_kept [OF m] by simp
  finally show ?thesis by simp
qed

lemma valid_record_iff:
  "valid_record q =
     (\<exists>t c w ws. \<not> nullish q
        \<and> prop_of (content_of q) ''question'' = JStr t
        \<and> prop_of (content_of q) ''correctAnswer'' = JStr c
        \<and> prop_of (content_of q) ''wrongAnswers'' = JArr (w # ws))"
proof -
  have s: "isString v = (\<exists>t. v = JStr t)" for v by (cases v) simp_all
  have a: "(isArray v \<and> \<not> length (elems v) < 1) = (\<exists>w ws. v = JArr (w # ws))" for v
  proof (cases v)
    case (JArr xs)
    then show ?thesis by (cases xs) simp_all
  qed simp_all
  show ?thesis
    using a [of "prop_of (content_of q) ''wrongAnswers''"]
    by (auto simp add: valid_record_def well_formed_def s)
qed

lemma fetchQuestions_success:
  assumes "tryBody (api (selectedLevel s)) rnd = Inr qs"
  shows "fetchQuestions api rnd s =
    (s\<lparr> questions := qs, currentQuestion := 0, selectedAnswer := JNull, score := 0,
        showResults := False, loading := False, error := JNull \<rparr>, None)"
  using assms by (simp add: fetchQuestions_def)

lemma fetchQuestions_failure:
  assumes "tryBody (api (selectedLevel s)) rnd = Inl e"
  shows "fst (fetchQuestions api rnd s) =
    s\<lparr> loading := False,
       error := (if nullish e then JNull
                 else js_or (prop_of e ''message'')
                        (JStr ''Failed to load questions. Please try again.'')) \<rparr>"
  using assms by (simp add: fetchQuestions_def getProp_def)

lemma fetchQuestions_failure_message:
  assumes "tryBody (api (selectedLevel s)) rnd = Inl e" and "\<not> nullish e"
  shows "snd (fetchQuestions api rnd s) = None
       \<and> truthy (error (fst (fetchQuestions api rnd s)))"
  using assms by (simp add: fetchQuestions_def getProp_def js_or_def)

lemma fetchQuestions_Resolved_failure:
  assumes "api (selectedLevel s) = Resolved resp" and "tryBody (Resolved resp) rnd = Inl e"
  shows "\<exists>m. m \<noteq> [] \<and> (e = newError m \<or> e = typeError m)
           \<and> fetchQuestions api rnd s = (s\<lparr> loading := False, error := JStr m \<rparr>, None)"
proof -
  from tryBody_Resolved_Inl [OF assms(2)] obtain m where
    m: "m \<noteq> []" "e = newError m \<or> e = typeError m" by blast
  then have "\<not> nullish e" and "prop_of e ''message'' = JStr m"
    by (auto simp add: newError_def typeError_def)
  with assms m have "fetchQuestions api rnd s = (s\<lparr> loading := False, error := JStr m \<rparr>, None)"
    by (simp add: fetchQuestions_def getProp_def js_or_def)
  with m show ?thesis by blast
qed

lemma fetchQuestions_Resolved_no_throw:
  assumes "api (selectedLevel s) = Resolved resp"
  shows "snd (fetchQuestions api rnd s) = None"
proof (cases "tryBody (Resolved resp) rnd")
  case (Inl e)
  from fetchQuestions_Resolved_failure [of api s resp rnd e] assms Inl
  show ?thesis by auto
next
  case (Inr qs)
  with assms show ?thesis by (simp add: fetchQuestions_def)
qed

lemma answer_in_options:
  assumes "valid_record q" and "up_to_order f = up_to_order (unshuffled q)"
  shows "JStr (answer f) \<in> set (options f)"
proof -
  from assms(1) obtain c where c: "prop_of (content_of q) ''correctAnswer'' = JStr c"
    unfolding valid_record_iff by blast
  from assms(2) have a: "answer f = answer (unshuffled q)"
    and m: "mset (options f) = mset (options (unshuffled q))"
    by (auto simp add: up_to_order_def dest: arg_cong [where f = answer])
  have "JStr (answer (unshuffled q)) \<in> set (options (unshuffled q))"
    using c by (simp add: unshuffled_def)
  with a m show ?thesis by (metis set_mset_mset)
qed

section \<open>The rounding to doubles\<close>

text \<open>
  \<open>binary_exponent\<close> is the exponent of the binade of a positive rational, and
  \<open>to_double\<close> returns a multiple of the unit in the last place of that binade that is
  at most half a unit away from its argument: a nearest number with a 53-bit significand.
\<close>

lemma floor_log2_bounds:
  "1 \<le> n \<Longrightarrow> 0 \<le> floor_log2 n \<and> 2 ^ nat (floor_log2 n) \<le> n \<and> n < 2 * 2 ^ nat (floor_log2 n)"
proof (induction n rule: floor_log2.induct)
  case (1 n)
  show ?case
  proof (cases "n < 2")
    case True
    with "1.prems" have "n = 1" by simp
    then show ?thesis by (simp add: floor_log2.simps)
  next
    case False
    then have h: "1 \<le> n div 2" by simp
    from "1.IH" [OF False h] have
      IH: "0 \<le> floor_log2 (n div 2)" "2 ^ nat (floor_log2 (n div 2)) \<le> n div 2"
        "n div 2 < 2 * 2 ^ nat (floor_log2 (n div 2))" by simp_all
    have e: "floor_log2 n = 1 + floor_log2 (n div 2)"
      using False by (subst floor_log2.simps) simp
    have n: "nat (1 + floor_log2 (n div 2)) = Suc (nat (floor_log2 (n div 2)))"
      using IH(1) by simp
    from IH(2,3) show ?thesis
      unfolding e n using IH(1) by (simp; linarith)
  qed
qed

lemma pow2_pos: "0 < pow2 e"
  by (simp add: pow2_def)

lemma pow2_powi: "pow2 e = 2 powi e"
  by (simp add: pow2_def power_int_def inverse_eq_divide power_one_over)

lemma pow2_Suc: "pow2 (e + 1) = 2 * pow2 e"
  by (simp add: pow2_powi power_int_add)

lemma binary_exponent_bounds:
  assumes "0 < x"
  shows "pow2 (binary_exponent x) \<le> x \<and> x < pow2 (binary_exponent x + 1)"
proof -
  obtain a b where q: "quotient_of x = (a, b)" by (cases "quotient_of x")
  then have b: "0 < b" by (rule quotient_of_denom_pos)
  from q have x: "x = of_int a / of_int b" by (rule quotient_of_div)
  with assms b have a: "0 < a" by (simp add: zero_less_divide_iff)
  define la where "la = floor_log2 a"
  define lb where "lb = floor_log2 b"
  from floor_log2_bounds [of a] a have A: "0 \<le> la" "2 ^ nat la \<le> a" "a < 2 * 2 ^ nat la"
    by (simp_all add: la_def)
  from floor_log2_bounds [of b] b have B: "0 \<le> lb" "2 ^ nat lb \<le> b" "b < 2 * 2 ^ nat lb"
    by (simp_all add: lb_def)
  have pa: "pow2 la = 2 ^ nat la" and pb: "pow2 lb = 2 ^ nat lb"
    using A(1) B(1) by (simp_all add: pow2_def)
  have ra: "pow2 la \<le> of_int a" "of_int a < 2 * pow2 la"
  proof -
    have "(of_int (2 ^ nat la) :: rat) \<le> of_int a" using A(2) by (simp only: of_int_le_iff)
    then show "pow2 la \<le> of_int a" by (simp add: pa)
    have "(of_int a :: rat) < of_int (2 * 2 ^ nat la)" using A(3) by (simp only: of_int_less_iff)
    then show "of_int a < 2 * pow2 la" by (simp add: pa)
  qed
  have rb: "pow2 lb \<le> of_int b" "of_int b < 2 * pow2 lb"
  proof -
    have "(of_int (2 ^ nat lb) :: rat) \<le> of_int b" using B(2) by (simp only: of_int_le_iff)
    then show "pow2 lb \<le> of_int b" by (simp add: pb)
    have "(of_int b :: rat) < of_int (2 * 2 ^ nat lb)" using B(3) by (simp only: of_int_less_iff)
    then show "of_int b < 2 * pow2 lb" by (simp add: pb)
  qed
  have d: "pow2 (la - lb) = pow2 la / pow2 lb"
    by (simp add: pow2_powi power_int_diff)
  have bpos: "(0::rat) < of_int b" using b by simp
  have up: "x < 2 * pow2 (la - lb)"
  proof -
    have "x * pow2 lb \<le> x * of_int b" using assms rb(1) by simp
    also have "\<dots> = of_int a" using x bpos by simp
    also have "\<dots> < 2 * pow2 la" by (rule ra(2))
    finally have "x < 2 * pow2 la / pow2 lb"
      using pow2_pos [of lb] by (simp add: pos_less_divide_eq)
    then show ?thesis by (simp add: d)
  qed
  have lo: "pow2 (la - lb) < 2 * x"
  proof -
    have "pow2 la \<le> of_int a" by (rule ra(1))
    also have "\<dots> = x * of_int b" using x bpos by simp
    also have "\<dots> < x * (2 * pow2 lb)" using assms rb(2) by simp
    finally have "pow2 la / pow2 lb < 2 * x"
      using pow2_pos [of lb] by (simp add: pos_divide_less_eq mult.commute mult.left_commute)
    then show ?thesis by (simp add: d)
  qed
  have e: "binary_exponent x = (if pow2 (la - lb) \<le> x then la - lb else la - lb - 1)"
    by (simp add: binary_exponent_def q la_def lb_def Let_def)
  show ?thesis
  proof (cases "pow2 (la - lb) \<le> x")
    case True
    with e up show ?thesis by (simp add: pow2_Suc)
  next
    case False
    then have "x < pow2 (la - lb)" by simp
    moreover have "pow2 (la - lb) = 2 * pow2 (la - lb - 1)"
      using pow2_Suc [of "la - lb - 1"] by simp
    ultimately show ?thesis using e False lo by simp
  qed
qed

lemma round_half_even_near: "\<bar>of_int (round_half_even x) - x\<bar> \<le> 1/2"
proof -
  have "of_int \<lfloor>x\<rfloor> \<le> x" "x < of_int \<lfloor>x\<rfloor> + 1" by linarith+
  then show ?thesis
    by (auto simp add: round_half_even_def Let_def abs_le_iff)
qed

lemma to_double_near:
  assumes "x \<noteq> 0"
  shows "\<bar>to_double x - x\<bar> \<le> pow2 (binary_exponent \<bar>x\<bar> - 52) / 2"
    and "\<exists>m::int. to_double x = of_int m * pow2 (binary_exponent \<bar>x\<bar> - 52)"
proof -
  define u where "u = pow2 (binary_exponent \<bar>x\<bar> - 52)"
  have u: "0 < u" by (simp add: u_def pow2_pos)
  define m where "m = round_half_even (\<bar>x\<bar> / u)"
  have t: "to_double x = sgn x * of_int m * u"
    using assms by (simp add: to_double_def Let_def u_def m_def)
  have "\<bar>of_int m - \<bar>x\<bar> / u\<bar> \<le> 1/2" unfolding m_def by (rule round_half_even_near)
  then have "\<bar>of_int m - \<bar>x\<bar> / u\<bar> * u \<le> 1/2 * u" using u by (simp only: mult_le_cancel_right_pos)
  moreover have "\<bar>of_int m - \<bar>x\<bar> / u\<bar> * u = \<bar>of_int m * u - \<bar>x\<bar>\<bar>"
  proof -
    have "\<bar>of_int m - \<bar>x\<bar> / u\<bar> * u = \<bar>(of_int m - \<bar>x\<bar> / u) * u\<bar>"
      using u by (simp add: abs_mult)
    also have "(of_int m - \<bar>x\<bar> / u) * u = of_int m * u - \<bar>x\<bar>"
      using u by (simp add: algebra_simps)
    finally show ?thesis .
  qed
  ultimately have k: "\<bar>of_int m * u - \<bar>x\<bar>\<bar> \<le> u / 2" by simp
  have "\<bar>to_double x - x\<bar> = \<bar>of_int m * u - \<bar>x\<bar>\<bar>"
  proof (cases "0 < x")
    case True
    then show ?thesis by (simp add: t)
  next
    case False
    with assms have "x < 0" by simp
    then show ?thesis by (simp add: t abs_if algebra_simps)
  qed
  with k show "\<bar>to_double x - x\<bar> \<le> pow2 (binary_exponent \<bar>x\<bar> - 52) / 2"
    by (simp add: u_def)
  have "to_double x = of_int (if 0 < x then m else - m) * u"
    using assms by (simp add: t sgn_if)
  then show "\<exists>m::int. to_double x = of_int m * pow2 (binary_exponent \<bar>x\<bar> - 52)"
    unfolding u_def by blast
qed

text \<open>
  Both roundings of the percentage have a relative error of at most \<open>2 ^ -53\<close>, so that
  the double product is closer to the exact \<open>score / total * 100\<close> than the exact value
  is to the next half-integer, unless the exact value is a half-integer itself. The
  percentage shown is then the exact value rounded, except at a tie, where the double
  product may fall just below the tie.
\<close>

lemma to_double_relative:
  assumes "0 < x"
  shows "\<bar>to_double x - x\<bar> \<le> x / 2 ^ 53"
proof -
  let ?e = "binary_exponent x"
  from assms have ax: "\<bar>x\<bar> = x" by simp
  from to_double_near(1) [of x] assms
  have n: "\<bar>to_double x - x\<bar> \<le> pow2 (?e - 52) / 2" by (simp add: ax)
  have "pow2 (?e - 52) = pow2 ?e / 2 ^ 52"
    by (simp add: pow2_powi power_int_diff)
  then have "pow2 (?e - 52) / 2 = pow2 ?e / 2 ^ 53" by simp
  also have "\<dots> \<le> x / 2 ^ 53"
    using binary_exponent_bounds [OF assms] by (simp add: divide_right_mono)
  finally show ?thesis using n by linarith
qed

lemma double_product_near:
  assumes "0 \<le> q"
  shows "\<bar>to_double (to_double q * 100) - q * 100\<bar> \<le> q * 300 / 2 ^ 53"
proof (cases "q = 0")
  case True
  then show ?thesis by (simp add: to_double_def)
next
  case False
  with assms have q: "0 < q" by simp
  define d :: rat where "d = 1 / 2 ^ 53"
  have d: "0 < d" "d \<le> 1" by (simp_all add: d_def)
  define y where "y = to_double q"
  have yq: "\<bar>y - q\<bar> \<le> q * d"
    using to_double_relative [OF q] by (simp add: y_def d_def)
  have "q * d \<le> q * 1" using q d by (simp only: mult_le_cancel_left_pos)
  moreover have "q * d < q * 1" using q d(1) by (simp add: d_def)
  ultimately have ypos: "0 < y" using yq by (simp add: abs_le_iff) 
  have yle: "y \<le> q * (1 + d)" using yq by (simp add: abs_le_iff algebra_simps)
  have y100: "0 < y * 100" using ypos by simp
  have "\<bar>to_double (y * 100) - y * 100\<bar> \<le> y * 100 * d"
    using to_double_relative [OF y100] by (simp add: d_def)
  also have "\<dots> \<le> q * (1 + d) * 100 * d"
    using yle d(1) by (simp add: mult_right_mono)
  finally have a: "\<bar>to_double (y * 100) - y * 100\<bar> \<le> q * (1 + d) * 100 * d" .
  have b: "\<bar>y * 100 - q * 100\<bar> \<le> q * d * 100"
  proof -
    have "\<bar>y * 100 - q * 100\<bar> = \<bar>y - q\<bar> * 100" by (simp add: abs_if)
    with yq show ?thesis by simp
  qed
  have "\<bar>to_double (y * 100) - q * 100\<bar>
        \<le> \<bar>to_double (y * 100) - y * 100\<bar> + \<bar>y * 100 - q * 100\<bar>" by simp
  also have "\<dots> \<le> q * (1 + d) * 100 * d + q * d * 100" using a b by linarith
  also have "\<dots> = q * d * 100 * (2 + d)" by (simp add: algebra_simps)
  also have "\<dots> \<le> q * d * 100 * 3"
    using q d by (simp add: mult_left_mono)
  finally show ?thesis by (simp add: y_def d_def)
qed

lemma percentage_vs_exact:
  assumes n: "0 < n" and sc: "sc < 2 ^ 40"
  shows "(\<not> halfway sc n \<longrightarrow> percentage sc n = exact_percentage sc n)
       \<and> (halfway sc n \<longrightarrow>
            percentage sc n = exact_percentage sc n
            \<or> percentage sc n = exact_percentage sc n - 1)"
proof -
  define q :: rat where "q = of_nat sc / of_nat n"
  define x where "x = to_double (to_double q * 100)"
  define E where "E = q * 100 + 1/2"
  define k where "k = \<lfloor>E\<rfloor>"
  define N :: rat where "N = of_nat n"
  have N: "0 < N" using n by (simp add: N_def)
  have q0: "0 \<le> q" by (simp add: q_def)
  have p: "percentage sc n = \<lfloor>x + 1/2\<rfloor>"
    by (simp add: percentage_def Math_round_def x_def q_def)
  have ek: "exact_percentage sc n = k"
    by (simp add: exact_percentage_def k_def E_def q_def)
  have hw: "halfway sc n = (of_int k = E)"
    by (simp add: halfway_def ek) (simp add: E_def q_def)
  have "(of_nat sc :: rat) < 2 ^ 40"
  proof -
    have "(of_nat sc :: rat) < of_nat (2 ^ 40)" using sc by (simp only: of_nat_less_iff)
    then show ?thesis by simp
  qed
  then have "of_nat sc * 600 < (2::rat) ^ 53" by simp
  then have "of_nat sc * 300 / 2 ^ 53 < (1::rat) / 2" by simp
  then have "of_nat sc * 300 / 2 ^ 53 / N < 1 / 2 / N"
    using N by (simp only: divide_strict_right_mono)
  moreover have "q * 300 / 2 ^ 53 = of_nat sc * 300 / 2 ^ 53 / N"
    by (simp add: q_def N_def)
  ultimately have eps: "q * 300 / 2 ^ 53 < 1 / (2 * N)" by simp
  from double_product_near [OF q0] eps
  have near: "\<bar>(x + 1/2) - E\<bar> < 1 / (2 * N)"
    by (simp add: x_def E_def)
  from near have n1: "(x + 1/2) - E < 1 / (2 * N)" and n2: "- ((x + 1/2) - E) < 1 / (2 * N)"
    unfolding abs_less_iff by blast+
  define M where "M = 200 * int sc + int n"
  have EN: "E * (2 * N) = of_int M"
    using N by (simp add: E_def q_def N_def M_def algebra_simps)
  have N2: "0 < 2 * N" using N by simp
  have kn: "of_int k * (2 * N) = of_int (k * (2 * int n))" by (simp add: N_def)
  have kn1: "(of_int k + 1) * (2 * N) = of_int ((k + 1) * (2 * int n))" by (simp add: N_def)
  have kE: "of_int k \<le> E" "E < of_int k + 1" by (simp_all add: k_def) linarith
  have small: "1 / (2 * N) \<le> 1"
    using n by (simp add: N_def)
  show ?thesis
  proof (intro conjI impI)
    assume "\<not> halfway sc n"
    with hw kE(1) have lt: "of_int k < E" by simp
    have lo: "of_int k + 1 / (2 * N) \<le> E"
    proof -
      have "of_int k * (2 * N) < E * (2 * N)"
        using lt N by (intro mult_strict_right_mono) simp_all
      then have "(of_int (k * (2 * int n)) :: rat) < of_int M"
        by (simp only: EN kn)
      then have "k * (2 * int n) < M" by (simp only: of_int_less_iff)
      then have "k * (2 * int n) + 1 \<le> M" by simp
      then have "(of_int (k * (2 * int n) + 1) :: rat) \<le> of_int M"
        by (simp only: of_int_le_iff)
      then have "(of_int (k * (2 * int n)) :: rat) + 1 \<le> of_int M"
        by (simp only: of_int_add of_int_1)
      then have "of_int k * (2 * N) + 1 \<le> E * (2 * N)" by (simp only: EN kn)
      then have "(of_int k * (2 * N) + 1) / (2 * N) \<le> E"
        by (simp only: pos_divide_le_eq [OF N2])
      moreover have "(of_int k * (2 * N) + 1) / (2 * N) = of_int k + 1 / (2 * N)"
        using N by (simp add: add_divide_distrib)
      ultimately show ?thesis by simp
    qed
    have hi: "E + 1 / (2 * N) \<le> of_int k + 1"
    proof -
      have "E * (2 * N) < (of_int k + 1) * (2 * N)"
        using kE(2) N by (intro mult_strict_right_mono) simp_all
      then have "(of_int M :: rat) < of_int ((k + 1) * (2 * int n))"
        by (simp only: EN kn1)
      then have "M < (k + 1) * (2 * int n)" by (simp only: of_int_less_iff)
      then have "M + 1 \<le> (k + 1) * (2 * int n)" by simp
      then have "(of_int (M + 1) :: rat) \<le> of_int ((k + 1) * (2 * int n))"
        by (simp only: of_int_le_iff)
      then have "(of_int M :: rat) + 1 \<le> of_int ((k + 1) * (2 * int n))"
        by (simp only: of_int_add of_int_1)
      then have "E * (2 * N) + 1 \<le> (of_int k + 1) * (2 * N)" by (simp only: EN kn1)
      then have "(E * (2 * N) + 1) / (2 * N) \<le> of_int k + 1"
        by (simp only: pos_divide_le_eq [OF N2])
      moreover have "(E * (2 * N) + 1) / (2 * N) = E + 1 / (2 * N)"
        using N by (simp add: add_divide_distrib)
      ultimately show ?thesis by simp
    qed
    from n1 n2 lo hi have "of_int k \<le> x + 1/2" "x + 1/2 < of_int k + 1"
      by linarith+
    then have "\<lfloor>x + 1/2\<rfloor> = k" by (simp add: floor_unique)
    with p ek show "percentage sc n = exact_percentage sc n" by simp
  next
    assume "halfway sc n"
    with hw have e: "E = of_int k" by simp
    from n1 n2 small e have b: "of_int k - 1 < x + 1/2" "x + 1/2 < of_int k + 1"
      by linarith+
    show "percentage sc n = exact_percentage sc n \<or> percentage sc n = exact_percentage sc n - 1"
    proof (cases "of_int k \<le> x + 1/2")
      case True
      with b(2) have "\<lfloor>x + 1/2\<rfloor> = k" by (simp add: floor_unique)
      with p ek show ?thesis by simp
    next
      case False
      then have "of_int (k - 1) \<le> x + 1/2" "x + 1/2 < of_int (k - 1) + 1"
        using b(1) by simp_all
      then have "\<lfloor>x + 1/2\<rfloor> = k - 1" by (rule floor_unique)
      with p ek show ?thesis by simp
    qed
  qed
qed

section \<open>The handlers and the views\<close>

lemma render_error:
  "truthy (selectedLevel s) \<Longrightarrow> \<not> loading s \<Longrightarrow> truthy (error s)
     \<Longrightarrow> render s = ErrorScreen (error s)"
  by (simp add: render_def)

lemma render_QuestionScreen:
  assumes "render s = QuestionScreen t opts d"
  shows "truthy (selectedLevel s) \<and> \<not> loading s \<and> \<not> truthy (error s)
         \<and> questions s \<noteq> [] \<and> \<not> showResults s
         \<and> currentQuestion s < length (questions s)
         \<and> t = question (questions s ! currentQuestion s)
         \<and> opts = options (questions s ! currentQuestion s)
         \<and> d = truthy (selectedAnswer s)"
  using assms by (auto simp add: render_def split: if_splits)

lemma handleAnswer_unanswered:
  assumes "\<not> truthy (selectedAnswer s)" and "currentQuestion s < length (questions s)"
  shows "handleAnswer opt s =
    (s\<lparr> selectedAnswer := opt,
         score := score s + (if opt = JStr (answer (questions s ! currentQuestion s)) then 1 else 0) \<rparr>,
     None)"
  using assms by (simp add: handleAnswer_def)

lemma handleAnswer_answered:
  "truthy (selectedAnswer s) \<Longrightarrow> handleAnswer opt s = (s, None)"
  by (simp add: handleAnswer_def)

lemma advance_ignored_while_unanswered:
  "render s = QuestionScreen t opts False \<Longrightarrow> dispatch api rnd NextClicked s = s"
  by (simp add: dispatch_def)

lemma selection_ignored_once_answer_truthy:
  "render s = QuestionScreen t opts True \<Longrightarrow> dispatch api rnd (OptionClicked i) s = s"
  by (simp add: dispatch_def)

lemma handleAnswer_keeps_score_bound:
  assumes "\<forall>q\<in>set (questions s). answer q \<noteq> []"
    and "currentQuestion s < length (questions s)"
    and "score s \<le> currentQuestion s + (if truthy (selectedAnswer s) then 1 else 0)"
  shows "score (fst (handleAnswer opt s))
           \<le> currentQuestion (fst (handleAnswer opt s))
              + (if truthy (selectedAnswer (fst (handleAnswer opt s))) then 1 else 0)
       \<and> currentQuestion (fst (handleAnswer opt s)) = currentQuestion s
       \<and> questions (fst (handleAnswer opt s)) = questions s"
proof (cases "truthy (selectedAnswer s)")
  case True
  with assms(3) show ?thesis by (simp add: handleAnswer_answered)
next
  case False
  from assms(1,2) have "answer (questions s ! currentQuestion s) \<noteq> []" by simp
  with False assms(2,3) show ?thesis by (simp add: handleAnswer_unanswered)
qed

lemma handleNext_keeps_score_bound:
  assumes "currentQuestion s < length (questions s)"
    and "score s \<le> currentQuestion s + (if truthy (selectedAnswer s) then 1 else 0)"
  shows "score (handleNext s)
           \<le> currentQuestion (handleNext s)
              + (if truthy (selectedAnswer (handleNext s)) then 1 else 0)
       \<and> currentQuestion (handleNext s) < length (questions (handleNext s))
       \<and> questions (handleNext s) = questions s"
  using assms by (auto simp add: handleNext_def split: if_splits)

text \<open>The double arithmetic of the percentage shows: 23 of 40 is displayed as 57,
  since \<^verbatim>\<open>(23 / 40) * 100\<close> is the double just below 57.5.\<close>

lemma percentage_23_of_40: "percentage 23 40 = 57"
  by code_simp

section \<open>The claims\<close>

subsection \<open>C1: malformed records are excluded and the loader does not throw\<close>

text \<open>
  Claim C1, as the code has it. For every response of the question service no exception
  leaves \<^verbatim>\<open>fetchQuestions\<close>. When the load succeeds, the questions produced are, up to
  their order and the order of their options, exactly the questions built from the
  records that pass the check of lines 37 to 42: \<^verbatim>\<open>question\<close> and
  \<^verbatim>\<open>correctAnswer\<close> are strings and \<^verbatim>\<open>wrongAnswers\<close> is a non-empty array. Every
  other record is excluded. The check does not look at the elements of
  \<^verbatim>\<open>wrongAnswers\<close>: the last theorem of this subsection is a record with a number
  among its wrong answers, which the loader keeps.
\<close>

theorem loader_keeps_checked_records_never_throws:
  "(api (selectedLevel s) = Resolved resp \<longrightarrow> snd (fetchQuestions api rnd s) = None)
   \<and> (tryBody (Resolved resp) rnd = Inr qs \<longrightarrow>
        image_mset up_to_order (mset qs) =
        image_mset (up_to_order \<circ> unshuffled)
          (mset (filter valid_record (elems (prop_of resp ''data'')))))
   \<and> valid_record q =
        (\<exists>t c w ws. \<not> nullish q
           \<and> prop_of (content_of q) ''question'' = JStr t
           \<and> prop_of (content_of q) ''correctAnswer'' = JStr c
           \<and> prop_of (content_of q) ''wrongAnswers'' = JArr (w # ws))"
  using fetchQuestions_Resolved_no_throw [of api s resp rnd] tryBody_kept [of resp rnd qs]
    valid_record_iff [of q]
  by blast

theorem loader_keeps_checked_records_witness:
  "service_returning (response_with mixed_batch) (selectedLevel initial)
     = Resolved (response_with mixed_batch)
   \<and> snd (fetchQuestions (service_returning (response_with mixed_batch)) always_zero initial) = None
   \<and> tryBody (Resolved (response_with mixed_batch)) always_zero = Inr [mixed_batch_question]
   \<and> filter valid_record (elems (prop_of (response_with mixed_batch) ''data''))
       = [sample_record ''q1'' ''a'' [JStr ''b'']]
   \<and> image_mset up_to_order (mset [mixed_batch_question]) =
       image_mset (up_to_order \<circ> unshuffled) (mset [sample_record ''q1'' ''a'' [JStr ''b'']])"
proof -
  have a: "service_returning (response_with mixed_batch) (selectedLevel initial)
     = Resolved (response_with mixed_batch)" by (simp add: service_returning_def)
  have b: "tryBody (Resolved (response_with mixed_batch)) always_zero = Inr [mixed_batch_question]"
    by code_simp
  have c: "filter valid_record (elems (prop_of (response_with mixed_batch) ''data''))
       = [sample_record ''q1'' ''a'' [JStr ''b'']]" by code_simp
  from loader_keeps_checked_records_never_throws
    [of "service_returning (response_with mixed_batch)" initial "response_with mixed_batch"
      always_zero "[mixed_batch_question]"]
  show ?thesis using a b c by simp
qed

theorem non_string_wrong_answer_kept:
  "\<not> strictly_valid number_record
   \<and> tryBody (Resolved (response_with [number_record])) always_zero =
       Inr [\<lparr> qid = JUndefined, question = ''q'', options = [JStr ''a'', JNum 1],
              answer = ''a'', explanation = JStr [], feedback = JStr [] \<rparr>]"
  by code_simp

subsection \<open>C2: one selection for each question\<close>

text \<open>
  Claim C2, evaluated where the code departs from it. While no answer is selected,
  \<open>handleAnswer_unanswered\<close> gives the first two parts of the claim: the score grows by
  one exactly when the option is the answer. The guard against a second selection is
  \<^verbatim>\<open>if (!selectedAnswer)\<close>, a test of truthiness; \<open>handleAnswer_answered\<close> gives the
  third part for a truthy selection only. On the record whose \<^verbatim>\<open>correctAnswer\<close> is the
  empty string, selecting that answer stores \<^verbatim>\<open>""\<close>, which is falsy, and a second
  selection of it raises the score again.
\<close>

theorem empty_answer_reselection_scores_again:
  "render empty_answer_loaded = QuestionScreen ''q'' [JStr [], JStr ''x''] False
   \<and> answer (questions empty_answer_loaded ! currentQuestion empty_answer_loaded) = []
   \<and> selectedAnswer empty_answer_loaded = JNull
   \<and> score empty_answer_loaded = 0
   \<and> selectedAnswer (fst (handleAnswer (JStr []) empty_answer_loaded)) = JStr []
   \<and> score (fst (handleAnswer (JStr []) empty_answer_loaded)) = 1
   \<and> score (fst (handleAnswer (JStr []) (fst (handleAnswer (JStr []) empty_answer_loaded)))) = 2"
  by code_simp

subsection \<open>C3: no valid record\<close>

text \<open>
  Claim C3. When the service resolves with an array in which no record is valid, the
  loader ends in the \<^verbatim>\<open>catch\<close> block: nothing is thrown to the caller, a non-empty
  message is stored in \<^verbatim>\<open>error\<close>, the session is otherwise as before and the
  component shows the error view instead of the quiz. When no element of the array is
  \<^verbatim>\<open>null\<close>, the message is that of the error thrown at line 58,
  "No valid questions available for this level.".
\<close>

theorem no_valid_record_gives_error_state:
  assumes "api (selectedLevel s) = Resolved resp"
    and "prop_of resp ''data'' = JArr recs"
    and "filter valid_record recs = []"
    and "truthy (selectedLevel s)"
  shows "\<exists>m. m \<noteq> []
           \<and> fetchQuestions api rnd s = (s\<lparr> loading := False, error := JStr m \<rparr>, None)
           \<and> render (s\<lparr> loading := False, error := JStr m \<rparr>) = ErrorScreen (JStr m)
           \<and> ((\<forall>q\<in>set recs. \<not> nullish q) \<longrightarrow>
                 m = ''No valid questions available for this level.'')"
proof -
  have none: "tryBody (Resolved resp) rnd = Inr qs \<Longrightarrow> False" for qs
  proof -
    assume r: "tryBody (Resolved resp) rnd = Inr qs"
    from tryBody_kept [OF r] assms(2,3) have "qs = []" by simp
    moreover from tryBody_Inr [OF r] obtain fs k where
      "filterBoolean fs \<noteq> []" "qs = fst (sort_random rnd k (filterBoolean fs))" by blast
    then have "mset qs \<noteq> {#}" by (simp add: sort_random_mset)
    ultimately show False by simp
  qed
  then obtain e where e: "tryBody (Resolved resp) rnd = Inl e"
    by (cases "tryBody (Resolved resp) rnd") auto
  from fetchQuestions_Resolved_failure [of api s resp rnd e] assms(1) e obtain m where
    m: "m \<noteq> []" "e = newError m \<or> e = typeError m"
      "fetchQuestions api rnd s = (s\<lparr> loading := False, error := JStr m \<rparr>, None)"
    by blast
  have scr: "render (s\<lparr> loading := False, error := JStr m \<rparr>) = ErrorScreen (JStr m)"
    using m(1) assms(4) by (simp add: render_def)
  have msg: "m = ''No valid questions available for this level.''"
    if nn: "\<forall>q\<in>set recs. \<not> nullish q"
  proof -
    from mapFormat_total [OF nn, of rnd 0] obtain fs k where
      f: "mapFormat rnd 0 recs = Inr (fs, k)" by blast
    from mapFormat_kept [OF f] assms(3) have "filterBoolean fs = []" by simp
    with f e assms(2) have "e = newError ''No valid questions available for this level.''"
      by (simp add: tryBody_array)
    with m(2) show ?thesis by (auto simp add: newError_def typeError_def)
  qed
  from m(1,3) scr msg show ?thesis by blast
qed

theorem no_valid_record_witness:
  "service_returning (response_with [JObj [], sample_record ''q2'' ''c'' []])
       (selectedLevel (initial\<lparr> selectedLevel := JStr ''A1'' \<rparr>))
     = Resolved (response_with [JObj [], sample_record ''q2'' ''c'' []])
   \<and> prop_of (response_with [JObj [], sample_record ''q2'' ''c'' []]) ''data''
       = JArr [JObj [], sample_record ''q2'' ''c'' []]
   \<and> filter valid_record [JObj [], sample_record ''q2'' ''c'' []] = []
   \<and> truthy (selectedLevel (initial\<lparr> selectedLevel := JStr ''A1'' \<rparr>))
   \<and> list_all (\<lambda>q. \<not> nullish q) [JObj [], sample_record ''q2'' ''c'' []]
   \<and> fetchQuestions (service_returning (response_with [JObj [], sample_record ''q2'' ''c'' []]))
         always_zero (initial\<lparr> selectedLevel := JStr ''A1'' \<rparr>)
       = (initial\<lparr> selectedLevel := JStr ''A1'', loading := False,
                   error := JStr ''No valid questions available for this level.'' \<rparr>, None)
   \<and> render (initial\<lparr> selectedLevel := JStr ''A1'', loading := False,
                   error := JStr ''No valid questions available for this level.'' \<rparr>)
       = ErrorScreen (JStr ''No valid questions available for this level.'')"
proof -
  let ?recs = "[JObj [], sample_record ''q2'' ''c'' []]"
  let ?s = "initial\<lparr> selectedLevel := JStr ''A1'' \<rparr>"
  have a: "service_returning (response_with ?recs) (selectedLevel ?s) = Resolved (response_with ?recs)"
    by (simp add: service_returning_def)
  have b: "prop_of (response_with ?recs) ''data'' = JArr ?recs"
    by (simp add: response_with_def)
  have c: "filter valid_record ?recs = []" by code_simp
  have d: "truthy (selectedLevel ?s)" by simp
  have e: "\<forall>q\<in>set ?recs. \<not> nullish q" by (simp add: sample_record_def)
  from no_valid_record_gives_error_state
    [where api = "service_returning (response_with ?recs)" and s = ?s
      and resp = "response_with ?recs" and recs = ?recs and rnd = always_zero]
  show ?thesis using a b c d e by auto
qed

subsection \<open>C4: length of the output, answer among the options\<close>

text \<open>
  Claim C4, as the code has it. For a batch none of whose elements is \<^verbatim>\<open>null\<close> or
  \<^verbatim>\<open>undefined\<close> and that contains at least one record passing the check of lines 37
  to 42 (\<^verbatim>\<open>question\<close> and \<^verbatim>\<open>correctAnswer\<close> strings, \<^verbatim>\<open>wrongAnswers\<close> a non-empty
  array whose elements are not inspected), the loader returns a question sequence; its
  length is the number of records of the batch that pass that check, and the answer of
  every question in it is one of the options of that question. The last theorem of this
  subsection has the two batches on which the claim as stated fails: one with a record
  whose wrong answers hold a number, which is counted, and one with a \<^verbatim>\<open>null\<close>
  element, on which \<^verbatim>\<open>q.content\<close> throws and no question is stored.
\<close>

theorem loader_length_and_answer_membership:
  "(prop_of resp ''data'' = JArr recs \<and> (\<forall>q\<in>set recs. \<not> nullish q)
      \<and> (\<exists>q\<in>set recs. valid_record q) \<longrightarrow>
      (\<exists>qs. tryBody (Resolved resp) rnd = Inr qs
         \<and> length qs = length (filter valid_record recs)
         \<and> (\<forall>f\<in>set qs. JStr (answer f) \<in> set (options f))))
   \<and> valid_record q =
        (\<exists>t c w ws. \<not> nullish q
           \<and> prop_of (content_of q) ''question'' = JStr t
           \<and> prop_of (content_of q) ''correctAnswer'' = JStr c
           \<and> prop_of (content_of q) ''wrongAnswers'' = JArr (w # ws))"
proof (intro conjI impI)
  assume a: "prop_of resp ''data'' = JArr recs \<and> (\<forall>q\<in>set recs. \<not> nullish q)
      \<and> (\<exists>q\<in>set recs. valid_record q)"
  then have d: "prop_of resp ''data'' = JArr recs" and nn: "\<forall>q\<in>set recs. \<not> nullish q"
    and ex: "\<exists>q\<in>set recs. valid_record q" by blast+
  from mapFormat_total [OF nn, of rnd 0] obtain fs k where
    f: "mapFormat rnd 0 recs = Inr (fs, k)" by blast
  from ex have "filter valid_record recs \<noteq> []"
    by (simp add: filter_empty_conv)
  with mapFormat_kept [OF f] have ne: "filterBoolean fs \<noteq> []" by auto
  define qs where "qs = fst (sort_random rnd k (filterBoolean fs))"
  have r: "tryBody (Resolved resp) rnd = Inr qs"
    using f ne d by (simp add: tryBody_array qs_def)
  have k: "image_mset up_to_order (mset qs) =
           image_mset (up_to_order \<circ> unshuffled) (mset (filter valid_record recs))"
    using tryBody_kept [OF r] d by simp
  have "mset (map up_to_order qs) =
        mset (map (up_to_order \<circ> unshuffled) (filter valid_record recs))"
    using k by simp
  from mset_eq_length [OF this]
  have len: "length qs = length (filter valid_record recs)" by simp
  have mem: "JStr (answer g) \<in> set (options g)" if g: "g \<in> set qs" for g
  proof -
    from g have "up_to_order g \<in># image_mset up_to_order (mset qs)" by simp
    with k have "up_to_order g \<in>#
        image_mset (up_to_order \<circ> unshuffled) (mset (filter valid_record recs))" by simp
    then obtain q' where "valid_record q'" "up_to_order g = up_to_order (unshuffled q')"
      by auto
    then show ?thesis by (rule answer_in_options)
  qed
  from r len mem show "\<exists>qs. tryBody (Resolved resp) rnd = Inr qs
         \<and> length qs = length (filter valid_record recs)
         \<and> (\<forall>f\<in>set qs. JStr (answer f) \<in> set (options f))" by blast
next
  show "valid_record q =
        (\<exists>t c w ws. \<not> nullish q
           \<and> prop_of (content_of q) ''question'' = JStr t
           \<and> prop_of (content_of q) ''correctAnswer'' = JStr c
           \<and> prop_of (content_of q) ''wrongAnswers'' = JArr (w # ws))"
    by (rule valid_record_iff)
qed

theorem loader_length_and_answer_membership_witness:
  "prop_of (response_with mixed_batch) ''data'' = JArr mixed_batch
   \<and> list_all (\<lambda>q. \<not> nullish q) mixed_batch
   \<and> list_ex valid_record mixed_batch
   \<and> tryBody (Resolved (response_with mixed_batch)) always_zero = Inr [mixed_batch_question]
   \<and> length [mixed_batch_question] = length (filter valid_record mixed_batch)
   \<and> JStr (answer mixed_batch_question) \<in> set (options mixed_batch_question)"
proof -
  have a: "prop_of (response_with mixed_batch) ''data'' = JArr mixed_batch"
    by (simp add: response_with_def)
  have b: "\<forall>q\<in>set mixed_batch. \<not> nullish q"
    by (simp add: mixed_batch_def sample_record_def)
  have c: "list_ex valid_record mixed_batch" by code_simp
  then have c': "\<exists>q\<in>set mixed_batch. valid_record q" by (simp add: list_ex_iff)
  have d: "tryBody (Resolved (response_with mixed_batch)) always_zero = Inr [mixed_batch_question]"
    by code_simp
  from loader_length_and_answer_membership
    [of "response_with mixed_batch" mixed_batch always_zero]
  show ?thesis using a b c c' d by (auto simp add: list_all_iff)
qed

theorem null_element_and_number_break_the_count:
  "list_ex strictly_valid [number_record, sample_record ''q1'' ''a'' [JStr ''b'']]
   \<and> length (filter strictly_valid [number_record, sample_record ''q1'' ''a'' [JStr ''b'']]) = 1
   \<and> tryBody (Resolved (response_with [number_record, sample_record ''q1'' ''a'' [JStr ''b'']]))
        always_zero =
       Inr [\<lparr> qid = JUndefined, question = ''q1'', options = [JStr ''a'', JStr ''b''],
              answer = ''a'', explanation = JStr [], feedback = JStr [] \<rparr>,
            \<lparr> qid = JUndefined, question = ''q'', options = [JStr ''a'', JNum 1],
              answer = ''a'', explanation = JStr [], feedback = JStr [] \<rparr>]
   \<and> list_ex strictly_valid [JNull, sample_record ''q1'' ''a'' [JStr ''b'']]
   \<and> tryBody (Resolved (response_with [JNull, sample_record ''q1'' ''a'' [JStr ''b'']]))
        always_zero = Inl (typeError (cannot_read JNull ''content''))
   \<and> questions (fst (fetchQuestions
        (service_returning (response_with [JNull, sample_record ''q1'' ''a'' [JStr ''b'']]))
        always_zero initial)) = []"
  by code_simp

subsection \<open>C5: the results after the last question\<close>

text \<open>
  Claim C5, as the code has it. In the question view with an answer selected (the button
  \<^verbatim>\<open>Next\<close> is enabled) on the last question, the advance sets \<^verbatim>\<open>showResults\<close> and
  the component shows the results view with the number of questions of the session as
  the total. Its percentage is \<^verbatim>\<open>Math.round((score / questions.length) * 100)\<close> on
  doubles. For a score below \<open>2 ^ 40\<close> it is \<open>round(score / total * 100)\<close> of exact
  arithmetic whenever \<open>score / total * 100\<close> is not exactly halfway between two
  integers; when it is halfway, it is that value or one less. A score of 3 of 4 gives 75,
  3 of 5 gives 60 and 23 of 40 gives 57. The witness is the scenario of the
  specification: five valid records, three answered correctly and two wrongly. The last
  theorem of this subsection is a session of forty questions with 23 answered correctly:
  57 is shown, and the exact value 57.5 rounds to 58.
\<close>

theorem last_advance_shows_percentage:
  assumes "render s = QuestionScreen t opts True"
    and "currentQuestion s + 1 = length (questions s)"
    and "score s < 2 ^ 40"
  shows "showResults (dispatch api rnd NextClicked s)
       \<and> render (dispatch api rnd NextClicked s) =
           ResultsScreen (percentage (score s) (length (questions s)))
             (score s) (length (questions s))
       \<and> (\<not> halfway (score s) (length (questions s)) \<longrightarrow>
            percentage (score s) (length (questions s))
              = exact_percentage (score s) (length (questions s)))
       \<and> (halfway (score s) (length (questions s)) \<longrightarrow>
            percentage (score s) (length (questions s))
              = exact_percentage (score s) (length (questions s))
            \<or> percentage (score s) (length (questions s))
              = exact_percentage (score s) (length (questions s)) - 1)
       \<and> percentage 3 4 = 75 \<and> percentage 3 5 = 60 \<and> percentage 23 40 = 57"
proof -
  from render_QuestionScreen [OF assms(1)] have
    r: "truthy (selectedLevel s)" "\<not> loading s" "\<not> truthy (error s)" "questions s \<noteq> []"
    by simp_all
  have n: "dispatch api rnd NextClicked s = s\<lparr> showResults := True \<rparr>"
    using assms(1,2) by (simp add: dispatch_def handleNext_def)
  have v: "render (s\<lparr> showResults := True \<rparr>) =
      ResultsScreen (percentage (score s) (length (questions s))) (score s) (length (questions s))"
    using r by (simp add: render_def)
  from r(4) have pos: "0 < length (questions s)" by simp
  note e = percentage_vs_exact [OF pos assms(3)]
  have "percentage 3 4 = 75" "percentage 3 5 = 60" "percentage 23 40 = 57" by code_simp+
  with n v e show ?thesis by simp
qed

theorem last_advance_witness:
  "render five_questions_answered = QuestionScreen ''q1'' [JStr ''a'', JStr ''b''] True
   \<and> currentQuestion five_questions_answered + 1 = length (questions five_questions_answered)
   \<and> score five_questions_answered = 3
   \<and> length (questions five_questions_answered) = 5
   \<and> \<not> halfway 3 5
   \<and> exact_percentage 3 5 = 60
   \<and> showResults (dispatch five_question_service always_zero NextClicked five_questions_answered)
   \<and> render (dispatch five_question_service always_zero NextClicked five_questions_answered)
       = ResultsScreen 60 3 5"
proof -
  have a: "render five_questions_answered = QuestionScreen ''q1'' [JStr ''a'', JStr ''b''] True"
    by code_simp
  have b: "currentQuestion five_questions_answered + 1 = length (questions five_questions_answered)"
    by code_simp
  have c: "score five_questions_answered = 3" by code_simp
  have d: "length (questions five_questions_answered) = 5" by code_simp
  have e: "\<not> halfway 3 5" "exact_percentage 3 5 = 60" by code_simp+
  have f: "score five_questions_answered < 2 ^ 40" by (simp add: c)
  from last_advance_shows_percentage [OF a b f, of five_question_service always_zero]
  show ?thesis using a b c d e by simp
qed

theorem displayed_percentage_below_exact_rounding:
  "render forty_questions_answered = QuestionScreen ''q'' [JStr ''a'', JStr ''b''] True
   \<and> currentQuestion forty_questions_answered + 1 = length (questions forty_questions_answered)
   \<and> render (dispatch forty_question_service always_zero NextClicked forty_questions_answered)
       = ResultsScreen 57 23 40
   \<and> exact_percentage 23 40 = 58"
  by code_simp

subsection \<open>C6: restart and change of level\<close>

text \<open>
  Claim C6, as the code has it. \<^verbatim>\<open>handleRestart\<close> runs the loader again. When the load
  succeeds, the score and the current index are 0, the selected answer and the results
  flag are cleared and the freshly fetched, reshuffled question sequence is installed.
  When the load fails, the questions, the index, the selected answer, the score and the
  results flag keep their values; and when the value thrown is not \<^verbatim>\<open>null\<close> or
  \<^verbatim>\<open>undefined\<close>, which is so for every failure on a resolved response, nothing leaves
  the handler, an error is stored and the error view is shown. The change of level sets
  \<^verbatim>\<open>selectedLevel\<close> to \<^verbatim>\<open>null\<close> and nothing else, which brings back the level
  selector; the session cells keep their values until the next successful load, which
  overwrites every one of them. The last theorem of this subsection is a finished
  session whose score is still 1 after a restart that failed and after a change of level.
\<close>

theorem restart_and_change_level:
  "(tryBody (api (selectedLevel s)) rnd = Inr qs \<longrightarrow>
      handleRestart api rnd s =
        (s\<lparr> questions := qs, currentQuestion := 0, selectedAnswer := JNull, score := 0,
            showResults := False, loading := False, error := JNull \<rparr>, None))
   \<and> (tryBody (api (selectedLevel s)) rnd = Inl e \<longrightarrow>
        questions (fst (handleRestart api rnd s)) = questions s
        \<and> currentQuestion (fst (handleRestart api rnd s)) = currentQuestion s
        \<and> selectedAnswer (fst (handleRestart api rnd s)) = selectedAnswer s
        \<and> score (fst (handleRestart api rnd s)) = score s
        \<and> showResults (fst (handleRestart api rnd s)) = showResults s
        \<and> (\<not> nullish e \<and> truthy (selectedLevel s) \<longrightarrow>
             snd (handleRestart api rnd s) = None
             \<and> truthy (error (fst (handleRestart api rnd s)))
             \<and> render (fst (handleRestart api rnd s))
                 = ErrorScreen (error (fst (handleRestart api rnd s)))))
   \<and> (tryBody (Resolved resp) rnd = Inl e \<longrightarrow> \<not> nullish e)
   \<and> changeLevel s = s\<lparr> selectedLevel := JNull \<rparr>
   \<and> render (changeLevel s) = LevelSelectorScreen
   \<and> (truthy level \<and> tryBody (api level) rnd = Inr qs \<longrightarrow>
        fst (handleLevelSelect api rnd level (changeLevel s)) =
          \<lparr> selectedLevel = level, questions = qs, currentQuestion = 0,
            selectedAnswer = JNull, score = 0, showResults = False, loading = False,
            error = JNull \<rparr>)"
proof -
  have fail: "snd (handleRestart api rnd s) = None
             \<and> truthy (error (fst (handleRestart api rnd s)))
             \<and> render (fst (handleRestart api rnd s))
                 = ErrorScreen (error (fst (handleRestart api rnd s)))"
    if e: "tryBody (api (selectedLevel s)) rnd = Inl e" and n: "\<not> nullish e"
      and l: "truthy (selectedLevel s)"
  proof -
    from fetchQuestions_failure_message [of api s rnd e] e n have
      m: "snd (fetchQuestions api rnd s) = None" "truthy (error (fst (fetchQuestions api rnd s)))"
      by simp_all
    have "selectedLevel (fst (fetchQuestions api rnd s)) = selectedLevel s"
      "\<not> loading (fst (fetchQuestions api rnd s))"
      using fetchQuestions_failure [of api s rnd e] e by simp_all
    with l m(2) have "render (fst (fetchQuestions api rnd s))
        = ErrorScreen (error (fst (fetchQuestions api rnd s)))"
      by (simp add: render_error)
    with m show ?thesis by (simp add: handleRestart_def)
  qed
  have res: "\<not> nullish e" if "tryBody (Resolved resp) rnd = Inl e"
    using tryBody_Resolved_Inl [OF that] by (auto simp add: newError_def typeError_def)
  show ?thesis
    using fail res
    by (simp add: handleRestart_def fetchQuestions_success fetchQuestions_failure
        changeLevel_def render_def handleLevelSelect_def)
qed

theorem restart_and_change_level_witness:
  "tryBody (five_question_service (selectedLevel one_question_finished)) always_zero
     = Inr (questions five_questions_answered)
   \<and> score one_question_finished = 1
   \<and> score (fst (handleRestart five_question_service always_zero one_question_finished)) = 0
   \<and> currentQuestion (fst (handleRestart five_question_service always_zero one_question_finished)) = 0
   \<and> selectedAnswer (fst (handleRestart five_question_service always_zero one_question_finished)) = JNull
   \<and> showResults (fst (handleRestart five_question_service always_zero one_question_finished)) = False
   \<and> questions (fst (handleRestart five_question_service always_zero one_question_finished))
       = questions five_questions_answered
   \<and> tryBody (service_failing (selectedLevel one_question_finished)) always_zero
       = Inl (newError ''Network Error'')
   \<and> \<not> nullish (newError ''Network Error'')
   \<and> truthy (selectedLevel one_question_finished)
   \<and> score (fst (handleRestart service_failing always_zero one_question_finished)) = 1
   \<and> snd (handleRestart service_failing always_zero one_question_finished) = None
   \<and> render (fst (handleRestart service_failing always_zero one_question_finished))
       = ErrorScreen (JStr ''Network Error'')
   \<and> render (changeLevel one_question_finished) = LevelSelectorScreen"
proof -
  have a: "tryBody (five_question_service (selectedLevel one_question_finished)) always_zero
     = Inr (questions five_questions_answered)" by code_simp
  have b: "score one_question_finished = 1" by code_simp
  have c: "tryBody (service_failing (selectedLevel one_question_finished)) always_zero
       = Inl (newError ''Network Error'')" by code_simp
  have d: "\<not> nullish (newError ''Network Error'')" by (simp add: newError_def)
  have e: "truthy (selectedLevel one_question_finished)" by code_simp
  have f: "error (fst (handleRestart service_failing always_zero one_question_finished))
      = JStr ''Network Error''" by code_simp
  from restart_and_change_level [of five_question_service one_question_finished always_zero
      "questions five_questions_answered"]
    restart_and_change_level [of service_failing one_question_finished always_zero _
      "newError ''Network Error''"]
  show ?thesis using a b c d e f by simp
qed

theorem failed_restart_keeps_score:
  "score one_question_finished = 1
   \<and> showResults one_question_finished
   \<and> score (fst (handleRestart service_failing always_zero one_question_finished)) = 1
   \<and> showResults (fst (handleRestart service_failing always_zero one_question_finished))
   \<and> render (fst (handleRestart service_failing always_zero one_question_finished))
       = ErrorScreen (JStr ''Network Error'')
   \<and> score (changeLevel one_question_finished) = 1
   \<and> length (questions (changeLevel one_question_finished)) = 1"
  by code_simp

subsection \<open>C7: actions outside their state\<close>

text \<open>
  Claim C7, evaluated where the code departs from it. A click reaches a handler only
  through a button of the current view that is not disabled, so \<open>on_screen\<close> ignores
  every other event; \<open>advance_ignored_while_unanswered\<close> and
  \<open>selection_ignored_once_answer_truthy\<close> are the two examples of the claim. Both
  \<^verbatim>\<open>disabled\<close> attributes test the truthiness of \<^verbatim>\<open>selectedAnswer\<close>. After the empty
  string has been selected as an answer, the option buttons are still enabled and the
  button \<^verbatim>\<open>Next\<close> is still disabled: a further selection changes the selected answer and
  the score, and the advance does nothing.
\<close>

theorem selection_after_empty_option_changes_state:
  "render empty_option_selected = QuestionScreen ''q'' [JStr ''x'', JStr []] False
   \<and> selectedAnswer empty_option_selected = JStr []
   \<and> score empty_option_selected = 0
   \<and> selectedAnswer (dispatch empty_option_service always_zero (OptionClicked 0) empty_option_selected)
       = JStr ''x''
   \<and> score (dispatch empty_option_service always_zero (OptionClicked 0) empty_option_selected) = 1
   \<and> dispatch empty_option_service always_zero NextClicked empty_option_selected
       = empty_option_selected"
  by code_simp

subsection \<open>C8: the shuffles are permutations\<close>

text \<open>
  Claim C8. Whatever values the random comparator returns (\<open>rnd\<close> and the position
  \<open>k\<close> are arbitrary), the options of the question built from a valid record are a
  permutation of \<^verbatim>\<open>[...wrongAnswers, correctAnswer]\<close>, so there is one option more
  than there are wrong answers; and the question sequence the loader returns is a
  permutation of the sequence of the questions built from the valid records.
\<close>

theorem shuffles_are_permutations:
  "(valid_record q \<longrightarrow>
      (\<exists>f k'. formatQuestion rnd k q = Inr (Some f, k')
         \<and> mset (options f) =
             mset (elems (prop_of (content_of q) ''wrongAnswers'')
                   @ [prop_of (content_of q) ''correctAnswer''])
         \<and> length (options f) = length (elems (prop_of (content_of q) ''wrongAnswers'')) + 1))
   \<and> (prop_of resp ''data'' = JArr recs \<and> mapFormat rnd 0 recs = Inr (fs, k0)
        \<and> filterBoolean fs \<noteq> [] \<longrightarrow>
      (\<exists>qs. tryBody (Resolved resp) rnd = Inr qs \<and> mset qs = mset (filterBoolean fs)))"
proof (intro conjI impI)
  assume "valid_record q"
  then have "\<not> nullish q" "well_formed q" by (simp_all add: valid_record_def)
  from formatQuestion_well_formed [OF this, of rnd k] obtain f k' where
    f: "formatQuestion rnd k q = Inr (Some f, k')"
    and u: "up_to_order f = up_to_order (unshuffled q)" by blast
  from u have m: "mset (options f) =
      mset (elems (prop_of (content_of q) ''wrongAnswers'')
            @ [prop_of (content_of q) ''correctAnswer''])"
    by (simp add: up_to_order_def unshuffled_def)
  from m have "size (mset (options f)) =
      size (mset (elems (prop_of (content_of q) ''wrongAnswers'')
            @ [prop_of (content_of q) ''correctAnswer'']))" by simp
  then have "length (options f) = length (elems (prop_of (content_of q) ''wrongAnswers'')) + 1"
    by simp
  with f m show "\<exists>f k'. formatQuestion rnd k q = Inr (Some f, k')
         \<and> mset (options f) =
             mset (elems (prop_of (content_of q) ''wrongAnswers'')
                   @ [prop_of (content_of q) ''correctAnswer''])
         \<and> length (options f) = length (elems (prop_of (content_of q) ''wrongAnswers'')) + 1"
    by blast
next
  assume a: "prop_of resp ''data'' = JArr recs \<and> mapFormat rnd 0 recs = Inr (fs, k0)
        \<and> filterBoolean fs \<noteq> []"
  then have "tryBody (Resolved resp) rnd = Inr (fst (sort_random rnd k0 (filterBoolean fs)))"
    by (simp add: tryBody_array)
  then show "\<exists>qs. tryBody (Resolved resp) rnd = Inr qs \<and> mset qs = mset (filterBoolean fs)"
    by (simp add: sort_random_mset)
qed

theorem shuffles_are_permutations_witness:
  "valid_record (sample_record ''q'' ''a'' [JStr ''b'', JStr ''c''])
   \<and> (\<exists>f k'. formatQuestion always_zero 0 (sample_record ''q'' ''a'' [JStr ''b'', JStr ''c''])
                = Inr (Some f, k')
         \<and> mset (options f) = mset [JStr ''b'', JStr ''c'', JStr ''a'']
         \<and> length (options f) = 3)
   \<and> prop_of (response_with mixed_batch) ''data'' = JArr mixed_batch
   \<and> mapFormat always_zero 0 mixed_batch = Inr ([Some mixed_batch_question, None, None, None], 1)
   \<and> filterBoolean [Some mixed_batch_question, None, None, None] \<noteq> []
   \<and> (\<exists>qs. tryBody (Resolved (response_with mixed_batch)) always_zero = Inr qs
         \<and> mset qs = mset [mixed_batch_question])"
proof -
  let ?q = "sample_record ''q'' ''a'' [JStr ''b'', JStr ''c'']"
  have a: "valid_record ?q" by code_simp
  have w: "elems (prop_of (content_of ?q) ''wrongAnswers'') = [JStr ''b'', JStr ''c'']"
    and c: "prop_of (content_of ?q) ''correctAnswer'' = JStr ''a''"
    by (simp_all add: sample_record_def content_of_def js_or_def)
  have b: "prop_of (response_with mixed_batch) ''data'' = JArr mixed_batch"
    by (simp add: response_with_def)
  have m: "mapFormat always_zero 0 mixed_batch
      = Inr ([Some mixed_batch_question, None, None, None], 1)" by code_simp
  have n: "filterBoolean [Some mixed_batch_question, None, None, None] \<noteq> []" by simp
  from shuffles_are_permutations [of ?q always_zero 0 "response_with mixed_batch" mixed_batch
      "[Some mixed_batch_question, None, None, None]" 1]
  show ?thesis using a b m n w c by (simp add: numeral_3_eq_3)
qed

subsection \<open>C9: a failed fetch leaves the session\<close>

text \<open>
  Claim C9. When the \<^verbatim>\<open>try\<close> block of \<^verbatim>\<open>fetchQuestions\<close> throws, the state
  afterwards is the state before with \<^verbatim>\<open>loading\<close> false and \<^verbatim>\<open>error\<close> set anew:
  the questions, the score, the current index, the selected answer and the results flag
  keep their values. The block throws when the service rejects, when the payload is
  missing and when no record is valid.
\<close>

theorem failed_fetch_keeps_session:
  "(tryBody (api (selectedLevel s)) rnd = Inl e \<longrightarrow>
      fst (fetchQuestions api rnd s)
        = s\<lparr> loading := False, error := error (fst (fetchQuestions api rnd s)) \<rparr>
      \<and> questions (fst (fetchQuestions api rnd s)) = questions s
      \<and> score (fst (fetchQuestions api rnd s)) = score s
      \<and> currentQuestion (fst (fetchQuestions api rnd s)) = currentQuestion s
      \<and> selectedAnswer (fst (fetchQuestions api rnd s)) = selectedAnswer s
      \<and> showResults (fst (fetchQuestions api rnd s)) = showResults s
      \<and> loading (fst (fetchQuestions api rnd s)) = False)
   \<and> tryBody (Rejected e) rnd = Inl e
   \<and> (\<not> truthy (prop_of resp ''data'') \<longrightarrow>
        tryBody (Resolved resp) rnd = Inl (newError ''Failed to fetch questions''))
   \<and> (filter valid_record (elems (prop_of resp ''data'')) = [] \<longrightarrow>
        (\<exists>e'. tryBody (Resolved resp) rnd = Inl e'))"
proof (intro conjI impI)
  assume "filter valid_record (elems (prop_of resp ''data'')) = []"
  have "tryBody (Resolved resp) rnd = Inr qs \<Longrightarrow> False" for qs
  proof -
    assume r: "tryBody (Resolved resp) rnd = Inr qs"
    from tryBody_kept [OF r] \<open>filter valid_record (elems (prop_of resp ''data'')) = []\<close>
    have "qs = []" by simp
    moreover from tryBody_Inr [OF r] obtain fs k where
      "filterBoolean fs \<noteq> []" "qs = fst (sort_random rnd k (filterBoolean fs))" by blast
    then have "mset qs \<noteq> {#}" by (simp add: sort_random_mset)
    ultimately show False by simp
  qed
  then show "\<exists>e'. tryBody (Resolved resp) rnd = Inl e'"
    by (cases "tryBody (Resolved resp) rnd") auto
qed (simp_all add: fetchQuestions_failure tryBody_def)

theorem failed_fetch_keeps_session_witness:
  "tryBody (service_failing (selectedLevel one_question_finished)) always_zero
     = Inl (newError ''Network Error'')
   \<and> fst (fetchQuestions service_failing always_zero one_question_finished)
       = one_question_finished\<lparr> loading := False, error := JStr ''Network Error'' \<rparr>
   \<and> score (fst (fetchQuestions service_failing always_zero one_question_finished)) = 1
   \<and> showResults (fst (fetchQuestions service_failing always_zero one_question_finished))
   \<and> \<not> truthy (prop_of (JObj []) ''data'')
   \<and> tryBody (Resolved (JObj [])) always_zero = Inl (newError ''Failed to fetch questions'')
   \<and> filter valid_record (elems (prop_of (response_with [JObj []]) ''data'')) = []
   \<and> (\<exists>e'. tryBody (Resolved (response_with [JObj []])) always_zero = Inl e')"
proof -
  have a: "tryBody (service_failing (selectedLevel one_question_finished)) always_zero
     = Inl (newError ''Network Error'')" by code_simp
  have b: "error (fst (fetchQuestions service_failing always_zero one_question_finished))
     = JStr ''Network Error''" by code_simp
  have c: "score one_question_finished = 1" "showResults one_question_finished" by code_simp+
  have d: "\<not> truthy (prop_of (JObj []) ''data'')" by simp
  have e: "filter valid_record (elems (prop_of (response_with [JObj []]) ''data'')) = []"
    by code_simp
  from failed_fetch_keeps_session [of service_failing one_question_finished always_zero
      "newError ''Network Error''" "JObj []"]
    failed_fetch_keeps_session [of service_failing one_question_finished always_zero
      "newError ''Network Error''" "response_with [JObj []]"]
  show ?thesis using a b c d e by simp
qed

subsection \<open>C10: the score and the questions presented\<close>

text \<open>
  Claim C10, evaluated where the code departs from it. When no question has the empty
  string as its answer, \<open>handleAnswer_keeps_score_bound\<close> and
  \<open>handleNext_keeps_score_bound\<close> keep the score at most the current index plus one and
  the index within the questions. On the record whose \<^verbatim>\<open>correctAnswer\<close> is the empty
  string, three clicks on the correct option of the only question give a score of 3 at
  index 0.
\<close>

theorem score_exceeds_questions_presented:
  "score (run empty_answer_service always_zero
            [LevelChosen (JStr ''A1''), OptionClicked 0, OptionClicked 0, OptionClicked 0] initial) = 3
   \<and> currentQuestion (run empty_answer_service always_zero
            [LevelChosen (JStr ''A1''), OptionClicked 0, OptionClicked 0, OptionClicked 0] initial) = 0
   \<and> length (questions (run empty_answer_service always_zero
            [LevelChosen (JStr ''A1''), OptionClicked 0, OptionClicked 0, OptionClicked 0] initial)) = 1"
  by code_simp

end
